theory Spec2Isabelle
  imports Main "HOL-Library.Sublist" "HOL-Library.AList"
begin

section \<open>Install script of MuJoCo MPC (python/setup.py)\<close>

text \<open>
  The script registers five setuptools commands and calls \<^verbatim>\<open>setuptools.setup\<close>.
  The embedding below follows the script function by function. What the script takes from
  its surroundings (the working directory, \<^verbatim>\<open>__file__\<close>, \<^verbatim>\<open>platform.system()\<close>,
  \<^verbatim>\<open>os.environ\<close>, \<^verbatim>\<open>os.cpu_count()\<close>, the finalised \<^verbatim>\<open>build_lib\<close> options, the behaviour
  of the programs it starts and of the inherited \<^verbatim>\<open>build_py.run\<close>) is a field of the record
  \<open>world\<close>. What it changes (the file system, the set of commands that have run) is the
  record \<open>state\<close>, which also keeps a trace of every effectful call in the order made.
  Symbolic links, file modes, log output (\<^verbatim>\<open>announce\<close>, \<^verbatim>\<open>print\<close>) and the dry-run mode
  of distutils are not modelled, and every program the script starts is taken to start and
  to end with an exit status.
\<close>

subsection \<open>Strings\<close>

text \<open>Python's \<^verbatim>\<open>needle in haystack\<close> on strings.\<close>

fun str_contains :: "string \<Rightarrow> string \<Rightarrow> bool" where
  "str_contains [] needle = (needle = [])"
| "str_contains (c # cs) needle = (prefix needle (c # cs) \<or> str_contains cs needle)"

text \<open>Python's \<^verbatim>\<open>sep.join(xs)\<close>.\<close>

fun join :: "string \<Rightarrow> string list \<Rightarrow> string" where
  "join sep [] = []"
| "join sep [x] = x"
| "join sep (x # y # ys) = x @ sep @ join sep (y # ys)"

text \<open>Python's \<^verbatim>\<open>s.endswith(t)\<close>; \<^verbatim>\<open>fnmatch\<close> of a name against \<^verbatim>\<open>*.xml\<close> is
  \<open>ends_with name ''.xml''\<close>.\<close>

definition ends_with :: "string \<Rightarrow> string \<Rightarrow> bool" where
  "ends_with s t = prefix (rev t) (rev s)"

text \<open>Decimal rendering of a natural number, as \<^verbatim>\<open>str(n)\<close> does.\<close>

function str_of_nat :: "nat \<Rightarrow> string" where
  "str_of_nat n =
     (if n < 10 then [''0123456789'' ! n]
      else str_of_nat (n div 10) @ [''0123456789'' ! (n mod 10)])"
  by pat_completeness auto
termination
  by (relation "measure (\<lambda>n. n)") auto

declare str_of_nat.simps [simp del]

subsection \<open>Paths (pathlib)\<close>

text \<open>
  A \<^verbatim>\<open>pathlib.Path\<close> is an anchor (absolute or not) and its parts; pathlib drops \<^verbatim>\<open>.\<close>
  parts when it parses and keeps \<^verbatim>\<open>..\<close> parts. String literals of the script are written
  in parsed form: \<^verbatim>\<open>Path("../build/bin/agent_service")\<close> is
  \<open>Path False [''..'', ''build'', ''bin'', ''agent_service'']\<close>.
\<close>

datatype path = Path (is_abs: bool) (parts: "string list")

text \<open>\<^verbatim>\<open>a / b\<close> and \<^verbatim>\<open>Path(a, b)\<close>: an absolute right operand replaces the left one.\<close>

definition joinpath :: "path \<Rightarrow> path \<Rightarrow> path" where
  "joinpath a b = (if is_abs b then b else Path (is_abs a) (parts a @ parts b))"

text \<open>\<^verbatim>\<open>p.parent\<close>: the parent of \<^verbatim>\<open>.\<close> is \<^verbatim>\<open>.\<close>, the parent of \<^verbatim>\<open>/\<close> is \<^verbatim>\<open>/\<close>.\<close>

definition parent :: "path \<Rightarrow> path" where
  "parent p = Path (is_abs p) (butlast (parts p))"

text \<open>\<^verbatim>\<open>p.name\<close>, which is also \<^verbatim>\<open>os.path.basename\<close> of a parsed path.\<close>

definition name :: "path \<Rightarrow> string" where
  "name p = (if parts p = [] then [] else last (parts p))"

text \<open>\<^verbatim>\<open>str(p)\<close>.\<close>

definition str_of_path :: "path \<Rightarrow> string" where
  "str_of_path p =
     (if is_abs p then ''/'' @ join ''/'' (parts p)
      else if parts p = [] then ''.'' else join ''/'' (parts p))"

text \<open>
  A location in the file system is the list of directory names from the root. Without
  symbolic links a path is located by walking its parts from the working directory (or
  from the root), \<^verbatim>\<open>..\<close> stepping up and staying at the root there.
\<close>

type_synonym fpath = "string list"

definition norm_step :: "fpath \<Rightarrow> string \<Rightarrow> fpath" where
  "norm_step acc c = (if c = ''..'' then butlast acc else acc @ [c])"

definition normalise :: "string list \<Rightarrow> fpath" where
  "normalise cs = foldl norm_step [] cs"

definition os_path :: "fpath \<Rightarrow> path \<Rightarrow> fpath" where
  "os_path cw p = normalise (if is_abs p then parts p else cw @ parts p)"

text \<open>\<^verbatim>\<open>p.resolve()\<close> (not strict).\<close>

definition resolve :: "fpath \<Rightarrow> path \<Rightarrow> path" where
  "resolve cw p = Path True (os_path cw p)"

subsection \<open>Errors\<close>

datatype error =
    AssertionError
  | ValueError string
  | FileNotFoundError fpath
  | FileExistsError fpath
  | NotADirectoryError fpath
  | IsADirectoryError fpath
  | SameFileError fpath fpath
  | CalledProcessError int "string list"
  | DistutilsExecError "string list" int
  | DistutilsModuleError string

text \<open>\<^verbatim>\<open>p.relative_to(other)\<close>: lexical, raises \<^verbatim>\<open>ValueError\<close> when \<open>other\<close> is no prefix.\<close>

definition relative_to :: "path \<Rightarrow> path \<Rightarrow> error + path" where
  "relative_to p other =
     (if is_abs p = is_abs other \<and> prefix (parts other) (parts p)
      then Inr (Path False (drop (length (parts other)) (parts p)))
      else Inl (ValueError (str_of_path p @ '' is not in the subpath of '' @ str_of_path other)))"

text \<open>\<^verbatim>\<open>tuple(p.relative_to(base) for p in ps)\<close>: the first failure raises.\<close>

fun relative_all :: "path list \<Rightarrow> path \<Rightarrow> error + path list" where
  "relative_all [] base = Inr []"
| "relative_all (p # ps) base =
     (case relative_to p base of
        Inl e \<Rightarrow> Inl e
      | Inr r \<Rightarrow> (case relative_all ps base of Inl e \<Rightarrow> Inl e | Inr rs \<Rightarrow> Inr (r # rs)))"

subsection \<open>The configuration arguments\<close>

text \<open>
  The first part of \<^verbatim>\<open>BuildCMakeExtension._configure_and_build_agent_service\<close>, up to the
  list \<^verbatim>\<open>cmake_configure_args\<close> being complete. It reads \<^verbatim>\<open>platform.system()\<close> and
  \<^verbatim>\<open>os.environ\<close>, the two arguments here.
\<close>

definition build_cfg :: string where
  "build_cfg = ''Debug''"

definition osx_archs :: "string \<Rightarrow> string list" where
  "osx_archs archflags =
     (if str_contains archflags ''-arch x86_64'' then [''x86_64''] else []) @
     (if str_contains archflags ''-arch arm64'' then [''arm64''] else [])"

definition cmake_configure_args :: "string \<Rightarrow> (string \<rightharpoonup> string) \<Rightarrow> string list" where
  "cmake_configure_args sys env =
     [''-DCMAKE_EXPORT_COMPILE_COMMANDS:BOOL=TRUE'',
      ''-DCMAKE_BUILD_TYPE:STRING='' @ build_cfg,
      ''-DBUILD_TESTING:BOOL=OFF''] @
     (if sys = ''Darwin''
      then (case env ''ARCHFLAGS'' of
              None \<Rightarrow> []
            | Some archflags \<Rightarrow>
                [''-DCMAKE_OSX_ARCHITECTURES='' @ join '';'' (osx_archs archflags)])
      else [])"

subsection \<open>The file system\<close>

text \<open>
  The file system maps locations to nodes; the root is a directory and has no entry. The
  order of the entries stands for the order in which the operating system lists them.
\<close>

datatype node = Dir | File string

type_synonym fs = "(fpath \<times> node) list"

definition lookup :: "fs \<Rightarrow> fpath \<Rightarrow> node option" where
  "lookup t p = (if p = [] then Some Dir else map_of t p)"

text \<open>\<^verbatim>\<open>os.mkdir\<close>.\<close>

definition os_mkdir :: "fs \<Rightarrow> fpath \<Rightarrow> error + fs" where
  "os_mkdir t p =
     (if p = [] then Inl (FileExistsError p)
      else case lookup t (butlast p) of
             None \<Rightarrow> Inl (FileNotFoundError p)
           | Some (File c) \<Rightarrow> Inl (NotADirectoryError p)
           | Some Dir \<Rightarrow>
               (case lookup t p of
                  None \<Rightarrow> Inr (t @ [(p, Dir)])
                | Some n \<Rightarrow> Inl (FileExistsError p)))"

fun is_FileNotFoundError :: "error \<Rightarrow> bool" where
  "is_FileNotFoundError (FileNotFoundError p) = True"
| "is_FileNotFoundError e = False"

text \<open>
  \<^verbatim>\<open>Path.mkdir(parents=True, exist_ok=True)\<close>, as pathlib writes it: try \<^verbatim>\<open>os.mkdir\<close>;
  on \<^verbatim>\<open>FileNotFoundError\<close> make the parent the same way and then the directory itself
  (\<open>mkdir_exist_ok\<close>, the call with \<^verbatim>\<open>parents=False\<close>); any other \<^verbatim>\<open>OSError\<close> is
  swallowed when the path is a directory. A failure leaves what was created before it.
\<close>

definition mkdir_exist_ok :: "fs \<Rightarrow> fpath \<Rightarrow> error option \<times> fs" where
  "mkdir_exist_ok t p =
     (case os_mkdir t p of
        Inr t' \<Rightarrow> (None, t')
      | Inl e \<Rightarrow>
          (if is_FileNotFoundError e then (Some e, t)
           else if lookup t p = Some Dir then (None, t) else (Some e, t)))"

function mkdir_parents :: "fs \<Rightarrow> fpath \<Rightarrow> error option \<times> fs" where
  "mkdir_parents t p =
     (case os_mkdir t p of
        Inr t' \<Rightarrow> (None, t')
      | Inl e \<Rightarrow>
          (if is_FileNotFoundError e then
             (if p = [] then (Some e, t)
              else (case mkdir_parents t (butlast p) of
                      (Some e', t') \<Rightarrow> (Some e', t')
                    | (None, t') \<Rightarrow> mkdir_exist_ok t' p))
           else if lookup t p = Some Dir then (None, t) else (Some e, t)))"
  by pat_completeness auto
termination
  by (relation "measure (\<lambda>(t, p). length p)") auto

declare mkdir_parents.simps [simp del]

text \<open>
  \<^verbatim>\<open>shutil.copy(src, dst)\<close>: a destination that is a directory receives the file under
  the source's base name; copying a file onto itself raises \<^verbatim>\<open>SameFileError\<close>; the
  source is opened first, then the destination is opened for writing.
\<close>

definition shutil_copy :: "fpath \<Rightarrow> fs \<Rightarrow> path \<Rightarrow> path \<Rightarrow> error option \<times> fs" where
  "shutil_copy cw t src dst =
     (let dst' = (if lookup t (os_path cw dst) = Some Dir
                  then joinpath dst (Path False [name src]) else dst);
          s = os_path cw src;
          d = os_path cw dst'
      in if lookup t s \<noteq> None \<and> s = d then (Some (SameFileError s d), t)
         else case lookup t s of
                None \<Rightarrow> (Some (FileNotFoundError s), t)
              | Some Dir \<Rightarrow> (Some (IsADirectoryError s), t)
              | Some (File c) \<Rightarrow>
                  (case lookup t d of
                     Some Dir \<Rightarrow> (Some (IsADirectoryError d), t)
                   | Some (File c') \<Rightarrow> (None, AList.update d (File c) t)
                   | None \<Rightarrow>
                       (case lookup t (butlast d) of
                          None \<Rightarrow> (Some (FileNotFoundError d), t)
                        | Some (File c') \<Rightarrow> (Some (NotADirectoryError d), t)
                        | Some Dir \<Rightarrow> (None, AList.update d (File c) t))))"

text \<open>
  \<^verbatim>\<open>base.rglob("*.xml")\<close>: every entry strictly below \<open>base\<close> whose name matches, files
  and directories alike, as the path \<open>base / relative\<close>; nothing when \<open>base\<close> is no
  directory.
\<close>

definition rglob_xml :: "fpath \<Rightarrow> fs \<Rightarrow> path \<Rightarrow> path list" where
  "rglob_xml cw t base =
     (let b = os_path cw base
      in if lookup t b \<noteq> Some Dir then []
         else map (\<lambda>k. joinpath base (Path False (drop (length b) k)))
                (filter (\<lambda>k. strict_prefix b k \<and> ends_with (last k) ''.xml'') (map fst t)))"

subsection \<open>World and state\<close>

datatype event =
    Running string
  | Completed string
  | Mkdir fpath
  | Copy fpath fpath
  | Spawn "string list"
  | CheckCall "string list" fpath
  | DefaultBuildPy

record world =
  cwd :: fpath
  script_file :: path
  system :: string
  environ :: "string \<rightharpoonup> string"
  cpu_count :: "nat option"
  build_py_build_lib :: path
  build_ext_build_lib :: path
  exec :: "string list \<Rightarrow> fpath \<Rightarrow> fs \<Rightarrow> int \<times> fs"
  default_build_py :: "fs \<Rightarrow> error option \<times> fs"

record state =
  files :: fs
  have_run :: "string list"
  trace :: "event list"

type_synonym step = "state \<Rightarrow> error option \<times> state"

text \<open>Statements in sequence: the first exception ends the run and keeps the state.\<close>

fun seq :: "step list \<Rightarrow> step" where
  "seq [] s = (None, s)"
| "seq (f # fs) s = (case f s of (Some e, s') \<Rightarrow> (Some e, s') | (None, s') \<Rightarrow> seq fs s')"

definition do_mkdir :: "world \<Rightarrow> path \<Rightarrow> step" where
  "do_mkdir w p s =
     (let k = os_path (cwd w) p; (r, t') = mkdir_parents (files s) k
      in (r, s\<lparr>files := t', trace := trace s @ [Mkdir k]\<rparr>))"

definition do_copy :: "world \<Rightarrow> path \<Rightarrow> path \<Rightarrow> step" where
  "do_copy w src dst s =
     (let (r, t') = shutil_copy (cwd w) (files s) src dst
      in (r, s\<lparr>files := t',
               trace := trace s @ [Copy (os_path (cwd w) src) (os_path (cwd w) dst)]\<rparr>))"

text \<open>\<^verbatim>\<open>self.spawn(argv)\<close> of distutils: runs the program in the working directory and
  raises \<^verbatim>\<open>DistutilsExecError\<close> when it exits with a status other than zero.\<close>

definition spawn :: "world \<Rightarrow> string list \<Rightarrow> step" where
  "spawn w argv s =
     (let (rc, t') = exec w argv (cwd w) (files s);
          s' = s\<lparr>files := t', trace := trace s @ [Spawn argv]\<rparr>
      in if rc \<noteq> 0 then (Some (DistutilsExecError argv rc), s') else (None, s'))"

text \<open>\<^verbatim>\<open>subprocess.check_call(argv, cwd=dir)\<close>: raises \<^verbatim>\<open>CalledProcessError\<close> when the
  program exits with a status other than zero.\<close>

definition check_call :: "world \<Rightarrow> string list \<Rightarrow> path \<Rightarrow> step" where
  "check_call w argv dir s =
     (let d = os_path (cwd w) dir;
          (rc, t') = exec w argv d (files s);
          s' = s\<lparr>files := t', trace := trace s @ [CheckCall argv d]\<rparr>
      in if rc \<noteq> 0 then (Some (CalledProcessError rc argv), s') else (None, s'))"

subsection \<open>The commands\<close>

text \<open>
  Each command class has the attribute \<^verbatim>\<open>build_lib\<close>: \<^verbatim>\<open>initialize_options\<close> sets it to
  \<^verbatim>\<open>None\<close>, and \<^verbatim>\<open>finalize_options\<close> copies the value of the command named there when it
  is still \<^verbatim>\<open>None\<close> (\<^verbatim>\<open>set_undefined_options\<close>). The attribute is the second argument of
  each \<open>run\<close> below.
\<close>

definition initialize_options :: "path option" where
  "initialize_options = None"

definition set_undefined_options :: "path \<Rightarrow> path option \<Rightarrow> path option" where
  "set_undefined_options src own = (case own of None \<Rightarrow> Some src | Some b \<Rightarrow> Some b)"

text \<open>\<^verbatim>\<open>GenerateProtoGrpcCommand.run\<close>; its local variables come first, as functions of
  the world and of the \<^verbatim>\<open>build_lib\<close> attribute.\<close>

definition agent_proto_filename :: string where
  "agent_proto_filename = ''agent.proto''"

definition agent_proto_source_path :: "world \<Rightarrow> path" where
  "agent_proto_source_path w = resolve (cwd w) (Path False [''..'', ''grpc'', agent_proto_filename])"

definition proto_module_relative_path :: path where
  "proto_module_relative_path = Path False [''mujoco_mpc'', ''proto'', agent_proto_filename]"

definition agent_proto_destination_path :: "world \<Rightarrow> path \<Rightarrow> path" where
  "agent_proto_destination_path w bl = joinpath (resolve (cwd w) bl) proto_module_relative_path"

definition protoc_command_parts :: "world \<Rightarrow> path \<Rightarrow> string list" where
  "protoc_command_parts w bl =
     [''-I'' @ str_of_path (resolve (cwd w) bl),
      ''--python_out='' @ str_of_path (resolve (cwd w) bl),
      ''--grpc_python_out='' @ str_of_path (resolve (cwd w) bl),
      str_of_path (agent_proto_destination_path w bl)]"

definition protoc_command :: "world \<Rightarrow> path \<Rightarrow> string list" where
  "protoc_command w bl = [''python'', ''-m'', ''grpc_tools.protoc''] @ protoc_command_parts w bl"

definition touch_command :: "world \<Rightarrow> path \<Rightarrow> string list" where
  "touch_command w bl =
     [''touch'',
      str_of_path (joinpath (parent (agent_proto_destination_path w bl))
                     (Path False [''__init__.py'']))]"

definition GenerateProtoGrpcCommand_run :: "world \<Rightarrow> path option \<Rightarrow> step" where
  "GenerateProtoGrpcCommand_run w build_lib s =
     (case build_lib of
        None \<Rightarrow> (Some AssertionError, s)
      | Some bl \<Rightarrow>
          seq [do_mkdir w (parent (agent_proto_destination_path w bl)),
               do_copy w (agent_proto_source_path w) (agent_proto_destination_path w bl),
               spawn w (protoc_command w bl),
               spawn w (touch_command w bl)]
            s)"

text \<open>\<^verbatim>\<open>CopyAgentServiceBinaryCommand.run\<close>; \<^verbatim>\<open>source_path.exists()\<close> is a lookup.\<close>

definition agent_service_source_path :: path where
  "agent_service_source_path = Path False [''..'', ''build'', ''bin'', ''agent_service'']"

definition missing_binary_message :: string where
  "missing_binary_message =
     ''Cannot find `agent_service` binary from '' @ str_of_path agent_service_source_path @
     ''. Please build the `agent_service` C++ gRPC service.''"

definition CopyAgentServiceBinaryCommand_run :: "world \<Rightarrow> path option \<Rightarrow> step" where
  "CopyAgentServiceBinaryCommand_run w build_lib s =
     (let source_path = agent_service_source_path
      in if lookup (files s) (os_path (cwd w) source_path) = None
         then (Some (ValueError missing_binary_message), s)
         else case build_lib of
                None \<Rightarrow> (Some AssertionError, s)
              | Some bl \<Rightarrow>
                  (let build_lib_path = resolve (cwd w) bl;
                       destination_path =
                         joinpath build_lib_path
                           (Path False [''mujoco_mpc'', ''mjpc'', ''agent_service''])
                   in seq
                        [do_mkdir w (parent destination_path),
                         do_copy w source_path destination_path]
                        s))"

text \<open>\<^verbatim>\<open>CopyTaskAssetsCommand.run\<close>; the sources are listed once, before the loop.\<close>

definition mjpc_tasks_path :: "world \<Rightarrow> path" where
  "mjpc_tasks_path w =
     joinpath (joinpath (parent (parent (script_file w))) (Path False [''mjpc'']))
       (Path False [''tasks''])"

definition copy_asset :: "world \<Rightarrow> path \<Rightarrow> path \<times> path \<Rightarrow> step list" where
  "copy_asset w destination_dir_path sp =
     (let source_path = fst sp;
          relative_source_path = snd sp;
          destination_path = joinpath destination_dir_path relative_source_path
      in [do_mkdir w (parent destination_path),
          do_copy w source_path destination_path])"

definition CopyTaskAssetsCommand_run :: "world \<Rightarrow> path option \<Rightarrow> step" where
  "CopyTaskAssetsCommand_run w build_lib s =
     (let source_paths = rglob_xml (cwd w) (files s) (mjpc_tasks_path w)
      in case relative_all source_paths (mjpc_tasks_path w) of
           Inl e \<Rightarrow> (Some e, s)
         | Inr relative_source_paths \<Rightarrow>
             (case build_lib of
                None \<Rightarrow> (Some AssertionError, s)
              | Some bl \<Rightarrow>
                  (let build_lib_path = resolve (cwd w) bl;
                       destination_dir_path =
                         joinpath build_lib_path
                           (Path False [''mujoco_mpc'', ''mjpc'', ''tasks''])
                   in seq
                        (concat (map (copy_asset w destination_dir_path)
                                   (zip source_paths relative_source_paths)))
                        s)))"

text \<open>
  \<^verbatim>\<open>self.run_command(name)\<close> of distutils: a command that has run in this invocation is
  not run again; otherwise its object is created and finalised, its \<open>run\<close> is called, and
  the command is marked as run once \<open>run\<close> has returned. The names are those of
  \<^verbatim>\<open>cmdclass\<close> in the call of \<^verbatim>\<open>setuptools.setup\<close>.
\<close>

definition command_run :: "world \<Rightarrow> string \<Rightarrow> step" where
  "command_run w cmd s =
     (if cmd = ''generate_proto_grpc''
      then GenerateProtoGrpcCommand_run w
             (set_undefined_options (build_py_build_lib w) initialize_options) s
      else if cmd = ''copy_agent_service_binary''
      then CopyAgentServiceBinaryCommand_run w
             (set_undefined_options (build_py_build_lib w) initialize_options) s
      else if cmd = ''copy_task_assets''
      then CopyTaskAssetsCommand_run w
             (set_undefined_options (build_ext_build_lib w) initialize_options) s
      else (Some (DistutilsModuleError cmd), s))"

definition log_event :: "event \<Rightarrow> state \<Rightarrow> state" where
  "log_event e s = s\<lparr>trace := trace s @ [e]\<rparr>"

definition run_command :: "world \<Rightarrow> string \<Rightarrow> step" where
  "run_command w cmd s =
     (if cmd \<in> set (have_run s) then (None, s)
      else case command_run w cmd (log_event (Running cmd) s) of
             (Some e, s') \<Rightarrow> (Some e, s')
           | (None, s') \<Rightarrow>
               (None, log_event (Completed cmd) (s'\<lparr>have_run := cmd # have_run s'\<rparr>)))"

text \<open>\<^verbatim>\<open>BuildPyCommand.run\<close>; \<^verbatim>\<open>super().run()\<close> is the inherited \<^verbatim>\<open>build_py.run\<close>.\<close>

definition super_run :: "world \<Rightarrow> step" where
  "super_run w s =
     (let (r, t') = default_build_py w (files s)
      in (r, s\<lparr>files := t', trace := trace s @ [DefaultBuildPy]\<rparr>))"

definition BuildPyCommand_run :: "world \<Rightarrow> step" where
  "BuildPyCommand_run w =
     seq [run_command w ''generate_proto_grpc'',
          run_command w ''copy_task_assets'',
          super_run w]"

text \<open>\<^verbatim>\<open>BuildCMakeExtension._configure_and_build_agent_service\<close>\<close>

definition mujoco_mpc_root :: "world \<Rightarrow> path" where
  "mujoco_mpc_root w = parent (parent (script_file w))"

definition mujoco_mpc_build_dir :: "world \<Rightarrow> path" where
  "mujoco_mpc_build_dir w = joinpath (mujoco_mpc_root w) (Path False [''build''])"

definition str_of_cpu_count :: "nat option \<Rightarrow> string" where
  "str_of_cpu_count c = (case c of None \<Rightarrow> ''None'' | Some n \<Rightarrow> str_of_nat n)"

definition configure_command :: "world \<Rightarrow> string list" where
  "configure_command w =
     [''cmake''] @ cmake_configure_args (system w) (environ w) @
     [''-S'' @ str_of_path (resolve (cwd w) (mujoco_mpc_root w)),
      ''-B'' @ str_of_path (resolve (cwd w) (mujoco_mpc_build_dir w))]"

definition build_command :: "world \<Rightarrow> string list" where
  "build_command w =
     [''cmake'',
      ''--build'',
      str_of_path (resolve (cwd w) (mujoco_mpc_build_dir w)),
      ''--target'',
      ''agent_service'',
      ''-j'' @ str_of_cpu_count (cpu_count w),
      ''--config'',
      build_cfg]"

definition configure_and_build_agent_service :: "world \<Rightarrow> step" where
  "configure_and_build_agent_service w =
     seq [check_call w (configure_command w) (mujoco_mpc_root w),
          check_call w (build_command w) (mujoco_mpc_root w)]"

text \<open>\<^verbatim>\<open>BuildCMakeExtension.run\<close>\<close>

definition BuildCMakeExtension_run :: "world \<Rightarrow> step" where
  "BuildCMakeExtension_run w =
     seq [configure_and_build_agent_service w,
          run_command w ''copy_agent_service_binary'']"

subsection \<open>An example world\<close>

text \<open>
  A checkout at \<^verbatim>\<open>/r\<close> with the script run from \<^verbatim>\<open>/r/python\<close>, two task files, the
  interface file and a built binary. The programs started all exit with status 0 and
  change nothing.
\<close>

definition example_files :: fs where
  "example_files =
     [([''r''], Dir),
      ([''r'', ''python''], Dir),
      ([''r'', ''grpc''], Dir),
      ([''r'', ''grpc'', ''agent.proto''], File ''syntax = 3;''),
      ([''r'', ''mjpc''], Dir),
      ([''r'', ''mjpc'', ''tasks''], Dir),
      ([''r'', ''mjpc'', ''tasks'', ''cartpole''], Dir),
      ([''r'', ''mjpc'', ''tasks'', ''cartpole'', ''task.xml''], File ''<mujoco/>''),
      ([''r'', ''mjpc'', ''tasks'', ''common.xml''], File ''<common/>''),
      ([''r'', ''build''], Dir),
      ([''r'', ''build'', ''bin''], Dir),
      ([''r'', ''build'', ''bin'', ''agent_service''], File ''ELF'')]"

definition example_world :: world where
  "example_world =
     \<lparr>cwd = [''r'', ''python''],
      script_file = Path True [''r'', ''python'', ''setup.py''],
      system = ''Darwin'',
      environ = [''ARCHFLAGS'' \<mapsto> ''-arch arm64 -arch x86_64''],
      cpu_count = Some 12,
      build_py_build_lib = Path False [''build'', ''lib''],
      build_ext_build_lib = Path False [''build'', ''lib''],
      exec = (\<lambda>argv d t. (0, t)),
      default_build_py = (\<lambda>t. (None, t))\<rparr>"

definition example_state :: state where
  "example_state = \<lparr>files = example_files, have_run = [], trace = []\<rparr>"

subsection \<open>A checkout with a working tool chain\<close>

text \<open>Writing a file as a program does: the directories above it are made when missing.\<close>

definition write_file :: "fpath \<Rightarrow> string \<Rightarrow> fs \<Rightarrow> fs" where
  "write_file k c t =
     (case mkdir_parents t (butlast k) of
        (None, t') \<Rightarrow> AList.update k (File c) t'
      | (Some e, t') \<Rightarrow> t')"

text \<open>
  The program \<^verbatim>\<open>touch\<close> with one path: an entry that exists is left with its content
  (only its time stamp changes, which the tree does not record), a missing one is created
  empty when its directory exists.
\<close>

definition touch_file :: "fpath \<Rightarrow> fs \<Rightarrow> int \<times> fs" where
  "touch_file k t =
     (case lookup t k of
        Some n \<Rightarrow> (0, t)
      | None \<Rightarrow>
          (case lookup t (butlast k) of
             Some Dir \<Rightarrow> (0, t @ [(k, File [])])
           | Some (File c) \<Rightarrow> (1, t)
           | None \<Rightarrow> (1, t)))"

text \<open>
  A second world, for runs in which the programs do their work. The checkout at \<^verbatim>\<open>/r\<close> has
  not been built. The configuration phase writes its cache; the build phase needs the cache
  and writes the binary; the interface compiler needs its input file and writes the two
  modules beside it; \<^verbatim>\<open>touch\<close> acts as above; the inherited build step writes one module
  of the package into the staging root. Each of them writes the same content when it is
  started again.
\<close>

definition checkout_files :: fs where
  "checkout_files =
     [([''r''], Dir),
      ([''r'', ''python''], Dir),
      ([''r'', ''grpc''], Dir),
      ([''r'', ''grpc'', ''agent.proto''], File ''syntax = 3;''),
      ([''r'', ''mjpc''], Dir),
      ([''r'', ''mjpc'', ''tasks''], Dir),
      ([''r'', ''mjpc'', ''tasks'', ''cartpole''], Dir),
      ([''r'', ''mjpc'', ''tasks'', ''cartpole'', ''task.xml''], File ''<mujoco/>''),
      ([''r'', ''mjpc'', ''tasks'', ''common.xml''], File ''<common/>'')]"

definition toolchain_exec :: "string list \<Rightarrow> fpath \<Rightarrow> fs \<Rightarrow> int \<times> fs" where
  "toolchain_exec argv d t =
     (if hd argv = ''touch''
      then touch_file [''r'', ''python'', ''build'', ''lib'', ''mujoco_mpc'', ''proto'', ''__init__.py''] t
      else if hd argv = ''python''
      then (case lookup t [''r'', ''python'', ''build'', ''lib'', ''mujoco_mpc'', ''proto'', ''agent.proto''] of
              Some (File c) \<Rightarrow>
                (0, write_file
                      [''r'', ''python'', ''build'', ''lib'', ''mujoco_mpc'', ''proto'', ''agent_pb2_grpc.py'']
                      (''# grpc of '' @ c)
                      (write_file
                         [''r'', ''python'', ''build'', ''lib'', ''mujoco_mpc'', ''proto'', ''agent_pb2.py'']
                         (''# messages of '' @ c) t))
            | Some Dir \<Rightarrow> (1, t)
            | None \<Rightarrow> (1, t))
      else if ''--build'' \<in> set argv
      then (case lookup t [''r'', ''build'', ''CMakeCache.txt''] of
              Some n \<Rightarrow> (0, write_file [''r'', ''build'', ''bin'', ''agent_service''] ''ELF'' t)
            | None \<Rightarrow> (1, t))
      else (0, write_file [''r'', ''build'', ''CMakeCache.txt''] ''CMAKE_BUILD_TYPE=Debug'' t))"

definition toolchain_world :: world where
  "toolchain_world =
     example_world
       \<lparr>exec := toolchain_exec,
        default_build_py :=
          (\<lambda>t. (None, write_file [''r'', ''python'', ''build'', ''lib'', ''mujoco_mpc'', ''agent.py'']
                         ''import grpc'' t))\<rparr>"

definition checkout_state :: state where
  "checkout_state = \<lparr>files = checkout_files, have_run = [], trace = []\<rparr>"

text \<open>A tree in which directories already stand at the places of two files to be staged.\<close>

definition occupied_files :: fs where
  "occupied_files =
     example_files @
     [([''r'', ''python'', ''build''], Dir),
      ([''r'', ''python'', ''build'', ''lib''], Dir),
      ([''r'', ''python'', ''build'', ''lib'', ''mujoco_mpc''], Dir),
      ([''r'', ''python'', ''build'', ''lib'', ''mujoco_mpc'', ''mjpc''], Dir),
      ([''r'', ''python'', ''build'', ''lib'', ''mujoco_mpc'', ''mjpc'', ''tasks''], Dir),
      ([''r'', ''python'', ''build'', ''lib'', ''mujoco_mpc'', ''mjpc'', ''tasks'', ''common.xml''], Dir),
      ([''r'', ''python'', ''build'', ''lib'', ''mujoco_mpc'', ''proto''], Dir),
      ([''r'', ''python'', ''build'', ''lib'', ''mujoco_mpc'', ''proto'', ''agent.proto''], Dir)]"

definition occupied_state :: state where
  "occupied_state = \<lparr>files = occupied_files, have_run = [], trace = []\<rparr>"

section \<open>Properties\<close>

subsection \<open>The configuration call\<close>

text \<open>The configuration command is the first call \<^verbatim>\<open>_configure_and_build_agent_service\<close> makes.\<close>

lemma configure_call_first:
  "take 1 (drop (length (trace s)) (trace (snd (configure_and_build_agent_service w s)))) =
     [CheckCall (configure_command w) (os_path (cwd w) (mujoco_mpc_root w))]"
  by (simp add: configure_and_build_agent_service_def check_call_def Let_def
      split: prod.splits option.splits)

text \<open>
  The order asked for by the specification's sentence on the architecture flag: the two
  architectures in the order in which their tokens first occur in the environment value.
  \<open>first_index\<close> is Python's \<^verbatim>\<open>str.find\<close> (the length when there is no occurrence).
\<close>

fun first_index :: "string \<Rightarrow> string \<Rightarrow> nat" where
  "first_index [] needle = 0"
| "first_index (c # cs) needle = (if prefix needle (c # cs) then 0 else Suc (first_index cs needle))"

definition archs_in_token_order :: "string \<Rightarrow> string list" where
  "archs_in_token_order archflags =
     (if first_index archflags ''-arch x86_64'' \<le> first_index archflags ''-arch arm64''
      then [''x86_64'', ''arm64''] else [''arm64'', ''x86_64''])"

text \<open>
  Claim C1, as stated: on Darwin with both tokens in \<^verbatim>\<open>ARCHFLAGS\<close>, the configuration call
  gets both architectures in one flag, in the order of the tokens in the environment value.
  The code does not look at the order of the tokens: for \<^verbatim>\<open>-arch arm64 -arch x86_64\<close> it
  passes \<^verbatim>\<open>x86_64;arm64\<close>.
\<close>

theorem token_order_not_preserved:
  "str_contains ''-arch arm64 -arch x86_64'' ''-arch x86_64'' \<and>
   str_contains ''-arch arm64 -arch x86_64'' ''-arch arm64'' \<and>
   archs_in_token_order ''-arch arm64 -arch x86_64'' = [''arm64'', ''x86_64''] \<and>
   cmake_configure_args ''Darwin'' [''ARCHFLAGS'' \<mapsto> ''-arch arm64 -arch x86_64''] =
     [''-DCMAKE_EXPORT_COMPILE_COMMANDS:BOOL=TRUE'',
      ''-DCMAKE_BUILD_TYPE:STRING=Debug'',
      ''-DBUILD_TESTING:BOOL=OFF'',
      ''-DCMAKE_OSX_ARCHITECTURES=x86_64;arm64''] \<and>
   cmake_configure_args ''Darwin'' [''ARCHFLAGS'' \<mapsto> ''-arch arm64 -arch x86_64''] \<noteq>
     [''-DCMAKE_EXPORT_COMPILE_COMMANDS:BOOL=TRUE'',
      ''-DCMAKE_BUILD_TYPE:STRING=Debug'',
      ''-DBUILD_TESTING:BOOL=OFF'',
      ''-DCMAKE_OSX_ARCHITECTURES='' @
        join '';'' (archs_in_token_order ''-arch arm64 -arch x86_64'')]"
  by (simp add: cmake_configure_args_def osx_archs_def build_cfg_def archs_in_token_order_def)

text \<open>
  Claim C1, amended: on Darwin with both tokens in \<^verbatim>\<open>ARCHFLAGS\<close>, the configuration call
  (the first call of the step) gets the single flag
  \<^verbatim>\<open>-DCMAKE_OSX_ARCHITECTURES=x86_64;arm64\<close>: both architectures, always in this fixed order,
  wherever the tokens stand in the environment value.
\<close>

theorem both_architectures_fixed_order:
  assumes "system w = ''Darwin''" and "environ w ''ARCHFLAGS'' = Some v"
    and "str_contains v ''-arch x86_64''" and "str_contains v ''-arch arm64''"
  shows "configure_command w =
     [''cmake'',
      ''-DCMAKE_EXPORT_COMPILE_COMMANDS:BOOL=TRUE'',
      ''-DCMAKE_BUILD_TYPE:STRING=Debug'',
      ''-DBUILD_TESTING:BOOL=OFF'',
      ''-DCMAKE_OSX_ARCHITECTURES=x86_64;arm64'',
      ''-S'' @ str_of_path (resolve (cwd w) (mujoco_mpc_root w)),
      ''-B'' @ str_of_path (resolve (cwd w) (mujoco_mpc_build_dir w))] \<and>
   take 1 (drop (length (trace s)) (trace (snd (configure_and_build_agent_service w s)))) =
     [CheckCall (configure_command w) (os_path (cwd w) (mujoco_mpc_root w))]"
proof -
  have "cmake_configure_args (system w) (environ w) =
     [''-DCMAKE_EXPORT_COMPILE_COMMANDS:BOOL=TRUE'',
      ''-DCMAKE_BUILD_TYPE:STRING=Debug'',
      ''-DBUILD_TESTING:BOOL=OFF'',
      ''-DCMAKE_OSX_ARCHITECTURES=x86_64;arm64'']"
    using assms by (simp add: cmake_configure_args_def osx_archs_def build_cfg_def)
  then have "configure_command w =
     [''cmake'',
      ''-DCMAKE_EXPORT_COMPILE_COMMANDS:BOOL=TRUE'',
      ''-DCMAKE_BUILD_TYPE:STRING=Debug'',
      ''-DBUILD_TESTING:BOOL=OFF'',
      ''-DCMAKE_OSX_ARCHITECTURES=x86_64;arm64'',
      ''-S'' @ str_of_path (resolve (cwd w) (mujoco_mpc_root w)),
      ''-B'' @ str_of_path (resolve (cwd w) (mujoco_mpc_build_dir w))]"
    by (simp add: configure_command_def)
  with configure_call_first [of s w] show ?thesis by blast
qed

theorem both_architectures_fixed_order_witness:
  "system example_world = ''Darwin'' \<and>
   environ example_world ''ARCHFLAGS'' = Some ''-arch arm64 -arch x86_64'' \<and>
   str_contains ''-arch arm64 -arch x86_64'' ''-arch x86_64'' \<and>
   str_contains ''-arch arm64 -arch x86_64'' ''-arch arm64'' \<and>
   configure_command example_world =
     [''cmake'',
      ''-DCMAKE_EXPORT_COMPILE_COMMANDS:BOOL=TRUE'',
      ''-DCMAKE_BUILD_TYPE:STRING=Debug'',
      ''-DBUILD_TESTING:BOOL=OFF'',
      ''-DCMAKE_OSX_ARCHITECTURES=x86_64;arm64'',
      ''-S/r'',
      ''-B/r/build'']"
proof -
  have a: "system example_world = ''Darwin''" by (simp add: example_world_def)
  have b: "environ example_world ''ARCHFLAGS'' = Some ''-arch arm64 -arch x86_64''"
    by (simp add: example_world_def)
  have c: "str_contains ''-arch arm64 -arch x86_64'' ''-arch x86_64''" by simp
  have d: "str_contains ''-arch arm64 -arch x86_64'' ''-arch arm64''" by simp
  have e: "str_of_path (resolve (cwd example_world) (mujoco_mpc_root example_world)) = ''/r''"
    by (simp add: example_world_def mujoco_mpc_root_def parent_def resolve_def os_path_def
        normalise_def norm_step_def str_of_path_def)
  have f: "str_of_path (resolve (cwd example_world) (mujoco_mpc_build_dir example_world)) =
      ''/r/build''"
    by (simp add: example_world_def mujoco_mpc_build_dir_def mujoco_mpc_root_def parent_def
        joinpath_def resolve_def os_path_def normalise_def norm_step_def str_of_path_def)
  from both_architectures_fixed_order [OF a b c d, of example_state] a b c d e f
  show ?thesis by simp
qed

text \<open>
  Claim C7: on a system other than Darwin, two runs of the configuration step that differ
  only in the value or presence of \<^verbatim>\<open>ARCHFLAGS\<close> pass the same argument list to the
  configuration command; the whole step then runs alike in both.
\<close>

theorem archflags_ignored_off_darwin:
  assumes "system w \<noteq> ''Darwin''"
  shows "configure_command (w\<lparr>environ := (environ w)(''ARCHFLAGS'' := v)\<rparr>) = configure_command w \<and>
         configure_and_build_agent_service (w\<lparr>environ := (environ w)(''ARCHFLAGS'' := v)\<rparr>) s =
           configure_and_build_agent_service w s"
proof -
  from assms
  have c: "configure_command (w\<lparr>environ := (environ w)(''ARCHFLAGS'' := v)\<rparr>) = configure_command w"
    by (simp add: configure_command_def cmake_configure_args_def mujoco_mpc_root_def
        mujoco_mpc_build_dir_def)
  have b: "build_command (w\<lparr>environ := (environ w)(''ARCHFLAGS'' := v)\<rparr>) = build_command w"
    by (simp add: build_command_def mujoco_mpc_root_def mujoco_mpc_build_dir_def)
  have k: "check_call (w\<lparr>environ := e\<rparr>) argv d = check_call w argv d" for e argv d
    by (simp add: check_call_def fun_eq_iff)
  have r: "mujoco_mpc_root (w\<lparr>environ := e\<rparr>) = mujoco_mpc_root w" for e
    by (simp add: mujoco_mpc_root_def)
  from c b show ?thesis
    by (simp add: configure_and_build_agent_service_def k r)
qed

theorem archflags_ignored_off_darwin_witness:
  "system (example_world\<lparr>system := ''Linux''\<rparr>) \<noteq> ''Darwin'' \<and>
   environ (example_world\<lparr>system := ''Linux''\<rparr>) ''ARCHFLAGS'' = Some ''-arch arm64 -arch x86_64'' \<and>
   configure_command
     (example_world\<lparr>system := ''Linux'',
        environ := (environ (example_world\<lparr>system := ''Linux''\<rparr>))(''ARCHFLAGS'' := None)\<rparr>) =
   configure_command (example_world\<lparr>system := ''Linux''\<rparr>)"
  using archflags_ignored_off_darwin [of "example_world\<lparr>system := ''Linux''\<rparr>" None example_state]
  by (simp add: example_world_def)

text \<open>
  Claim C10: on Darwin, when \<^verbatim>\<open>ARCHFLAGS\<close> is set and contains neither token, the
  configuration arguments still carry the architecture flag, with an empty value.
\<close>

theorem empty_architectures_flag:
  assumes "system w = ''Darwin''" and "environ w ''ARCHFLAGS'' = Some v"
    and "\<not> str_contains v ''-arch x86_64''" and "\<not> str_contains v ''-arch arm64''"
  shows "configure_command w =
     [''cmake'',
      ''-DCMAKE_EXPORT_COMPILE_COMMANDS:BOOL=TRUE'',
      ''-DCMAKE_BUILD_TYPE:STRING=Debug'',
      ''-DBUILD_TESTING:BOOL=OFF'',
      ''-DCMAKE_OSX_ARCHITECTURES='',
      ''-S'' @ str_of_path (resolve (cwd w) (mujoco_mpc_root w)),
      ''-B'' @ str_of_path (resolve (cwd w) (mujoco_mpc_build_dir w))]"
  using assms
  by (simp add: configure_command_def cmake_configure_args_def osx_archs_def build_cfg_def)

theorem empty_architectures_flag_witness:
  "system (example_world\<lparr>environ := [''ARCHFLAGS'' \<mapsto> ''-arch ppc'']\<rparr>) = ''Darwin'' \<and>
   \<not> str_contains ''-arch ppc'' ''-arch x86_64'' \<and>
   \<not> str_contains ''-arch ppc'' ''-arch arm64'' \<and>
   configure_command (example_world\<lparr>environ := [''ARCHFLAGS'' \<mapsto> ''-arch ppc'']\<rparr>) =
     [''cmake'',
      ''-DCMAKE_EXPORT_COMPILE_COMMANDS:BOOL=TRUE'',
      ''-DCMAKE_BUILD_TYPE:STRING=Debug'',
      ''-DBUILD_TESTING:BOOL=OFF'',
      ''-DCMAKE_OSX_ARCHITECTURES='',
      ''-S/r'',
      ''-B/r/build'']"
proof -
  let ?w = "example_world\<lparr>environ := [''ARCHFLAGS'' \<mapsto> ''-arch ppc'']\<rparr>"
  have a: "system ?w = ''Darwin''" by (simp add: example_world_def)
  have b: "environ ?w ''ARCHFLAGS'' = Some ''-arch ppc''" by simp
  have c: "\<not> str_contains ''-arch ppc'' ''-arch x86_64''" by simp
  have d: "\<not> str_contains ''-arch ppc'' ''-arch arm64''" by simp
  have e: "str_of_path (resolve (cwd ?w) (mujoco_mpc_root ?w)) = ''/r''"
    by (simp add: example_world_def mujoco_mpc_root_def parent_def resolve_def os_path_def
        normalise_def norm_step_def str_of_path_def)
  have f: "str_of_path (resolve (cwd ?w) (mujoco_mpc_build_dir ?w)) = ''/r/build''"
    by (simp add: example_world_def mujoco_mpc_build_dir_def mujoco_mpc_root_def parent_def
        joinpath_def resolve_def os_path_def normalise_def norm_step_def str_of_path_def)
  from empty_architectures_flag [OF a b c d] a c d e f show ?thesis by simp
qed

subsection \<open>Staging the binary\<close>

text \<open>
  Claim C2: when \<^verbatim>\<open>../build/bin/agent_service\<close> does not exist, the step that stages the
  binary raises the error for the missing artifact (a \<^verbatim>\<open>ValueError\<close> in the script), whose
  message names the build step to run first, and nothing has been done before: no directory
  made, no copy, the state as it was.
\<close>

theorem missing_binary_fails_fast:
  assumes "lookup (files s) (os_path (cwd w) agent_service_source_path) = None"
  shows "CopyAgentServiceBinaryCommand_run w build_lib s =
           (Some (ValueError missing_binary_message), s) \<and>
         str_contains missing_binary_message
           ''Please build the `agent_service` C++ gRPC service'' \<and>
         str_of_path agent_service_source_path = ''../build/bin/agent_service''"
  using assms
  by (simp add: CopyAgentServiceBinaryCommand_run_def missing_binary_message_def
      agent_service_source_path_def str_of_path_def)

theorem missing_binary_fails_fast_witness:
  "lookup [] (os_path (cwd example_world) agent_service_source_path) = None \<and>
   CopyAgentServiceBinaryCommand_run example_world (Some (Path False [''build'', ''lib'']))
     \<lparr>files = [], have_run = [], trace = []\<rparr> =
     (Some (ValueError missing_binary_message), \<lparr>files = [], have_run = [], trace = []\<rparr>)"
proof -
  have a: "lookup (files \<lparr>files = [], have_run = [], trace = []\<rparr>)
      (os_path (cwd example_world) agent_service_source_path) = None"
    by (simp add: lookup_def os_path_def agent_service_source_path_def example_world_def
        normalise_def norm_step_def)
  from missing_binary_fails_fast [OF a] a show ?thesis by simp
qed

subsection \<open>Staging the task assets\<close>

text \<open>
  Claim C9: when the enumeration of the asset tree finds no \<^verbatim>\<open>*.xml\<close> entry, the asset
  step ends without an error, copies nothing and makes no directory; the same happens when
  the asset directory does not exist, so the two cases cannot be told apart.
\<close>

theorem no_assets_is_silent:
  assumes "rglob_xml (cwd w) (files s) (mjpc_tasks_path w) = [] \<or>
           lookup (files s) (os_path (cwd w) (mjpc_tasks_path w)) \<noteq> Some Dir"
  shows "command_run w ''copy_task_assets'' s = (None, s)"
proof -
  from assms have "rglob_xml (cwd w) (files s) (mjpc_tasks_path w) = []"
    by (auto simp: rglob_xml_def Let_def)
  then show ?thesis
    by (simp add: command_run_def CopyTaskAssetsCommand_run_def set_undefined_options_def
        initialize_options_def)
qed

theorem no_assets_is_silent_witness:
  "rglob_xml (cwd example_world) [([''r''], Dir), ([''r'', ''python''], Dir)]
     (mjpc_tasks_path example_world) = [] \<and>
   command_run example_world ''copy_task_assets''
     \<lparr>files = [([''r''], Dir), ([''r'', ''python''], Dir)], have_run = [], trace = []\<rparr> =
     (None, \<lparr>files = [([''r''], Dir), ([''r'', ''python''], Dir)], have_run = [], trace = []\<rparr>)"
proof -
  let ?s = "\<lparr>files = [([''r''], Dir), ([''r'', ''python''], Dir)], have_run = [], trace = []\<rparr>"
  have a: "rglob_xml (cwd example_world) (files ?s) (mjpc_tasks_path example_world) = []"
    by (simp add: rglob_xml_def Let_def lookup_def os_path_def mjpc_tasks_path_def
        example_world_def parent_def joinpath_def normalise_def norm_step_def)
  then have "rglob_xml (cwd example_world) (files ?s) (mjpc_tasks_path example_world) = [] \<or>
      lookup (files ?s) (os_path (cwd example_world) (mjpc_tasks_path example_world)) \<noteq> Some Dir"
    by blast
  from no_assets_is_silent [OF this] a show ?thesis by simp
qed

subsection \<open>Failing subprocesses\<close>

text \<open>Two more worlds: one where every program started exits with status 1, and one where
  only the build phase fails, with status 2.\<close>

definition failing_world :: world where
  "failing_world = example_world\<lparr>exec := (\<lambda>argv d t. (1, t))\<rparr>"

definition build_failing_world :: world where
  "build_failing_world =
     example_world\<lparr>exec := (\<lambda>argv d t. (if ''--build'' \<in> set argv then 2 else 0, t))\<rparr>"

text \<open>The events a run has added to the trace.\<close>

definition new_events :: "state \<Rightarrow> state \<Rightarrow> event list" where
  "new_events s s' = drop (length (trace s)) (trace s')"

lemma seq_append: "seq (fs @ gs) s = (case seq fs s of (Some e, s') \<Rightarrow> (Some e, s') | (None, s') \<Rightarrow> seq gs s')"
  by (induction fs arbitrary: s) (auto split: prod.splits option.splits)

lemma check_call_result:
  "exec w argv (os_path (cwd w) dir) (files s) = (rc, t') \<Longrightarrow>
   check_call w argv dir s =
     ((if rc \<noteq> 0 then Some (CalledProcessError rc argv) else None),
      s\<lparr>files := t', trace := trace s @ [CheckCall argv (os_path (cwd w) dir)]\<rparr>)"
  by (simp add: check_call_def)

lemma spawn_result:
  "exec w argv (cwd w) (files s) = (rc, t') \<Longrightarrow>
   spawn w argv s =
     ((if rc \<noteq> 0 then Some (DistutilsExecError argv rc) else None),
      s\<lparr>files := t', trace := trace s @ [Spawn argv]\<rparr>)"
  by (simp add: spawn_def)

text \<open>
  Claim C6: when a subprocess exits with a status other than zero, the error of that call
  is raised (\<^verbatim>\<open>CalledProcessError\<close> carrying the configuration or the build command,
  \<^verbatim>\<open>DistutilsExecError\<close> carrying the compiler command: the script's forms of the
  specification's three named errors), it is the result of the whole lifecycle step, and the
  trace ends with the failing call: nothing runs after it and it is not tried again. With
  status zero the call raises nothing.
\<close>

theorem subprocess_failure_aborts:
  "(exec w (configure_command w) (os_path (cwd w) (mujoco_mpc_root w)) (files s) = (rc, t1) \<and> rc \<noteq> 0 \<longrightarrow>
      BuildCMakeExtension_run w s =
        (Some (CalledProcessError rc (configure_command w)),
         s\<lparr>files := t1,
           trace := trace s @ [CheckCall (configure_command w) (os_path (cwd w) (mujoco_mpc_root w))]\<rparr>)) \<and>
   (exec w (configure_command w) (os_path (cwd w) (mujoco_mpc_root w)) (files s) = (0, t1) \<and>
    exec w (build_command w) (os_path (cwd w) (mujoco_mpc_root w)) t1 = (rc, t2) \<and> rc \<noteq> 0 \<longrightarrow>
      BuildCMakeExtension_run w s =
        (Some (CalledProcessError rc (build_command w)),
         s\<lparr>files := t2,
           trace := trace s @ [CheckCall (configure_command w) (os_path (cwd w) (mujoco_mpc_root w)),
                               CheckCall (build_command w) (os_path (cwd w) (mujoco_mpc_root w))]\<rparr>)) \<and>
   (exec w (configure_command w) (os_path (cwd w) (mujoco_mpc_root w)) (files s) = (0, t1) \<and>
    exec w (build_command w) (os_path (cwd w) (mujoco_mpc_root w)) t1 = (0, t2) \<longrightarrow>
      configure_and_build_agent_service w s =
        (None,
         s\<lparr>files := t2,
           trace := trace s @ [CheckCall (configure_command w) (os_path (cwd w) (mujoco_mpc_root w)),
                               CheckCall (build_command w) (os_path (cwd w) (mujoco_mpc_root w))]\<rparr>)) \<and>
   (''generate_proto_grpc'' \<notin> set (have_run s) \<and>
    seq [do_mkdir w (parent (agent_proto_destination_path w (build_py_build_lib w))),
         do_copy w (agent_proto_source_path w) (agent_proto_destination_path w (build_py_build_lib w))]
      (log_event (Running ''generate_proto_grpc'') s) = (None, s2) \<and>
    exec w (protoc_command w (build_py_build_lib w)) (cwd w) (files s2) = (rc, t3) \<and> rc \<noteq> 0 \<longrightarrow>
      BuildPyCommand_run w s =
        (Some (DistutilsExecError (protoc_command w (build_py_build_lib w)) rc),
         s2\<lparr>files := t3, trace := trace s2 @ [Spawn (protoc_command w (build_py_build_lib w))]\<rparr>)) \<and>
   (exec w (protoc_command w (build_py_build_lib w)) (cwd w) (files s2) = (0, t3) \<longrightarrow>
      spawn w (protoc_command w (build_py_build_lib w)) s2 =
        (None, s2\<lparr>files := t3, trace := trace s2 @ [Spawn (protoc_command w (build_py_build_lib w))]\<rparr>))"
proof (intro conjI impI)
  assume "exec w (configure_command w) (os_path (cwd w) (mujoco_mpc_root w)) (files s) = (rc, t1) \<and> rc \<noteq> 0"
  then show "BuildCMakeExtension_run w s =
        (Some (CalledProcessError rc (configure_command w)),
         s\<lparr>files := t1,
           trace := trace s @ [CheckCall (configure_command w) (os_path (cwd w) (mujoco_mpc_root w))]\<rparr>)"
    by (simp add: BuildCMakeExtension_run_def configure_and_build_agent_service_def
        check_call_result)
next
  assume "exec w (configure_command w) (os_path (cwd w) (mujoco_mpc_root w)) (files s) = (0, t1) \<and>
    exec w (build_command w) (os_path (cwd w) (mujoco_mpc_root w)) t1 = (rc, t2) \<and> rc \<noteq> 0"
  then show "BuildCMakeExtension_run w s =
        (Some (CalledProcessError rc (build_command w)),
         s\<lparr>files := t2,
           trace := trace s @ [CheckCall (configure_command w) (os_path (cwd w) (mujoco_mpc_root w)),
                               CheckCall (build_command w) (os_path (cwd w) (mujoco_mpc_root w))]\<rparr>)"
    by (simp add: BuildCMakeExtension_run_def configure_and_build_agent_service_def
        check_call_result)
next
  assume "exec w (configure_command w) (os_path (cwd w) (mujoco_mpc_root w)) (files s) = (0, t1) \<and>
    exec w (build_command w) (os_path (cwd w) (mujoco_mpc_root w)) t1 = (0, t2)"
  then show "configure_and_build_agent_service w s =
        (None,
         s\<lparr>files := t2,
           trace := trace s @ [CheckCall (configure_command w) (os_path (cwd w) (mujoco_mpc_root w)),
                               CheckCall (build_command w) (os_path (cwd w) (mujoco_mpc_root w))]\<rparr>)"
    by (simp add: configure_and_build_agent_service_def check_call_result)
next
  assume a: "''generate_proto_grpc'' \<notin> set (have_run s) \<and>
    seq [do_mkdir w (parent (agent_proto_destination_path w (build_py_build_lib w))),
         do_copy w (agent_proto_source_path w) (agent_proto_destination_path w (build_py_build_lib w))]
      (log_event (Running ''generate_proto_grpc'') s) = (None, s2) \<and>
    exec w (protoc_command w (build_py_build_lib w)) (cwd w) (files s2) = (rc, t3) \<and> rc \<noteq> 0"
  then have "seq ([do_mkdir w (parent (agent_proto_destination_path w (build_py_build_lib w))),
         do_copy w (agent_proto_source_path w) (agent_proto_destination_path w (build_py_build_lib w))] @
         [spawn w (protoc_command w (build_py_build_lib w)), spawn w (touch_command w (build_py_build_lib w))])
      (log_event (Running ''generate_proto_grpc'') s) =
     (Some (DistutilsExecError (protoc_command w (build_py_build_lib w)) rc),
         s2\<lparr>files := t3, trace := trace s2 @ [Spawn (protoc_command w (build_py_build_lib w))]\<rparr>)"
    unfolding seq_append by (simp add: spawn_result)
  with a show "BuildPyCommand_run w s =
        (Some (DistutilsExecError (protoc_command w (build_py_build_lib w)) rc),
         s2\<lparr>files := t3, trace := trace s2 @ [Spawn (protoc_command w (build_py_build_lib w))]\<rparr>)"
    by (simp add: BuildPyCommand_run_def run_command_def command_run_def
        GenerateProtoGrpcCommand_run_def set_undefined_options_def initialize_options_def)
next
  assume "exec w (protoc_command w (build_py_build_lib w)) (cwd w) (files s2) = (0, t3)"
  then show "spawn w (protoc_command w (build_py_build_lib w)) s2 =
        (None, s2\<lparr>files := t3, trace := trace s2 @ [Spawn (protoc_command w (build_py_build_lib w))]\<rparr>)"
    by (simp add: spawn_result)
qed

theorem subprocess_failure_aborts_witness:
  "BuildCMakeExtension_run failing_world example_state =
     (Some (CalledProcessError 1 (configure_command failing_world)),
      example_state\<lparr>files := example_files,
        trace := trace example_state @
          [CheckCall (configure_command failing_world)
             (os_path (cwd failing_world) (mujoco_mpc_root failing_world))]\<rparr>) \<and>
   BuildCMakeExtension_run build_failing_world example_state =
     (Some (CalledProcessError 2 (build_command build_failing_world)),
      example_state\<lparr>files := example_files,
        trace := trace example_state @
          [CheckCall (configure_command build_failing_world)
             (os_path (cwd build_failing_world) (mujoco_mpc_root build_failing_world)),
           CheckCall (build_command build_failing_world)
             (os_path (cwd build_failing_world) (mujoco_mpc_root build_failing_world))]\<rparr>) \<and>
   fst (configure_and_build_agent_service example_world example_state) = None \<and>
   fst (BuildPyCommand_run failing_world example_state) =
     Some (DistutilsExecError (protoc_command failing_world (build_py_build_lib failing_world)) 1)"
proof -
  let ?d = "os_path (cwd failing_world) (mujoco_mpc_root failing_world)"
  have a: "exec failing_world (configure_command failing_world) ?d (files example_state) =
      (1, example_files) \<and> (1::int) \<noteq> 0"
    by (simp add: failing_world_def example_state_def)
  let ?e = "os_path (cwd build_failing_world) (mujoco_mpc_root build_failing_world)"
  have b: "exec build_failing_world (configure_command build_failing_world) ?e
      (files example_state) = (0, example_files) \<and>
      exec build_failing_world (build_command build_failing_world) ?e example_files =
        (2, example_files) \<and> (2::int) \<noteq> 0"
    by (simp add: build_failing_world_def example_state_def configure_command_def
        cmake_configure_args_def build_command_def example_world_def osx_archs_def
        build_cfg_def)
  let ?f = "os_path (cwd example_world) (mujoco_mpc_root example_world)"
  have c: "exec example_world (configure_command example_world) ?f (files example_state) =
      (0, example_files) \<and>
      exec example_world (build_command example_world) ?f example_files = (0, example_files)"
    by (simp add: example_world_def example_state_def)
  obtain s2 where s2: "seq [do_mkdir failing_world
         (parent (agent_proto_destination_path failing_world (build_py_build_lib failing_world))),
       do_copy failing_world (agent_proto_source_path failing_world)
         (agent_proto_destination_path failing_world (build_py_build_lib failing_world))]
      (log_event (Running ''generate_proto_grpc'') example_state) = (None, s2)"
  proof -
    have "fst (seq [do_mkdir failing_world
         (parent (agent_proto_destination_path failing_world (build_py_build_lib failing_world))),
       do_copy failing_world (agent_proto_source_path failing_world)
         (agent_proto_destination_path failing_world (build_py_build_lib failing_world))]
      (log_event (Running ''generate_proto_grpc'') example_state)) = None"
      by code_simp
    then show ?thesis using that by (metis prod.collapse)
  qed
  have d: "''generate_proto_grpc'' \<notin> set (have_run example_state) \<and>
      seq [do_mkdir failing_world
         (parent (agent_proto_destination_path failing_world (build_py_build_lib failing_world))),
       do_copy failing_world (agent_proto_source_path failing_world)
         (agent_proto_destination_path failing_world (build_py_build_lib failing_world))]
      (log_event (Running ''generate_proto_grpc'') example_state) = (None, s2) \<and>
      exec failing_world (protoc_command failing_world (build_py_build_lib failing_world))
        (cwd failing_world) (files s2) = (1, files s2) \<and> (1::int) \<noteq> 0"
    using s2 by (simp add: failing_world_def example_state_def)
  note t = subprocess_failure_aborts
  from t [of failing_world example_state 1 example_files] a
  have 1: "BuildCMakeExtension_run failing_world example_state =
     (Some (CalledProcessError 1 (configure_command failing_world)),
      example_state\<lparr>files := example_files,
        trace := trace example_state @ [CheckCall (configure_command failing_world) ?d]\<rparr>)"
    by blast
  from t [of build_failing_world example_state 2 example_files example_files] b
  have 2: "BuildCMakeExtension_run build_failing_world example_state =
     (Some (CalledProcessError 2 (build_command build_failing_world)),
      example_state\<lparr>files := example_files,
        trace := trace example_state @
          [CheckCall (configure_command build_failing_world) ?e,
           CheckCall (build_command build_failing_world) ?e]\<rparr>)"
    by blast
  from t [of example_world example_state 0 example_files example_files] c
  have 3: "fst (configure_and_build_agent_service example_world example_state) = None"
    by simp
  from t [of failing_world example_state 1 _ _ s2 "files s2"] d
  have 4: "fst (BuildPyCommand_run failing_world example_state) =
     Some (DistutilsExecError (protoc_command failing_world (build_py_build_lib failing_world)) 1)"
    by simp
  from 1 2 3 4 show ?thesis by blast
qed

subsection \<open>The order of the build-py steps\<close>





























section \<open>The staging tree\<close>

subsection \<open>Paths and directories: basic facts\<close>

lemma norm_step_no_dotdot: "''..'' \<notin> set acc \<Longrightarrow> ''..'' \<notin> set (norm_step acc c)"
  by (auto simp: norm_step_def dest: in_set_butlastD)

lemma foldl_norm_no_dotdot: "''..'' \<notin> set acc \<Longrightarrow> ''..'' \<notin> set (foldl norm_step acc cs)"
  by (induction cs arbitrary: acc) (simp_all add: norm_step_no_dotdot)

lemma normalise_no_dotdot: "''..'' \<notin> set (normalise cs)"
  by (simp add: normalise_def foldl_norm_no_dotdot)

lemma foldl_norm_plain: "''..'' \<notin> set zs \<Longrightarrow> foldl norm_step acc zs = acc @ zs"
  by (induction zs arbitrary: acc) (auto simp: norm_step_def)

lemma normalise_append_plain: "''..'' \<notin> set zs \<Longrightarrow> normalise (ys @ zs) = normalise ys @ zs"
  by (simp add: normalise_def foldl_norm_plain)

lemma normalise_plain: "''..'' \<notin> set zs \<Longrightarrow> normalise zs = zs"
  using normalise_append_plain [of zs "[]"] by (simp add: normalise_def)

lemma os_path_no_dotdot: "''..'' \<notin> set (os_path cw p)"
  by (simp add: os_path_def normalise_no_dotdot)

lemma os_path_resolve [simp]: "os_path cw (resolve cw' p) = os_path cw' p"
  by (simp add: resolve_def os_path_def normalise_plain normalise_no_dotdot)

lemma os_path_join_plain:
  assumes "''..'' \<notin> set zs"
  shows "os_path cw (joinpath p (Path False zs)) = os_path cw p @ zs"
proof (cases "is_abs p")
  case True
  with assms show ?thesis by (simp add: os_path_def joinpath_def normalise_append_plain)
next
  case False
  with normalise_append_plain [OF assms, of "cw @ parts p"] show ?thesis
    by (simp add: os_path_def joinpath_def)
qed

lemma os_path_parent_join:
  assumes "''..'' \<notin> set zs" and "zs \<noteq> []"
  shows "os_path cw (parent (joinpath p (Path False zs))) = os_path cw p @ butlast zs"
proof -
  from assms(2) have "parent (joinpath p (Path False zs)) = joinpath p (Path False (butlast zs))"
    by (simp add: joinpath_def parent_def butlast_append)
  moreover from assms(1) have "''..'' \<notin> set (butlast zs)"
    by (auto dest: in_set_butlastD)
  ultimately show ?thesis by (simp add: os_path_join_plain)
qed

lemma lookup_append_Dir:
  "lookup (t @ [(p, Dir)]) q = (if lookup t q = None \<and> q = p then Some Dir else lookup t q)"
  by (auto simp: lookup_def map_add_def split: option.splits)

lemma os_mkdir_Inr:
  "os_mkdir t p = Inr t' \<longleftrightarrow>
     p \<noteq> [] \<and> lookup t (butlast p) = Some Dir \<and> lookup t p = None \<and> t' = t @ [(p, Dir)]"
  by (auto simp: os_mkdir_def split: option.splits node.splits)

lemma os_mkdir_FileNotFound:
  "os_mkdir t p = Inl e \<Longrightarrow> is_FileNotFoundError e \<longleftrightarrow> p \<noteq> [] \<and> lookup t (butlast p) = None"
  by (auto simp: os_mkdir_def split: option.splits node.splits if_splits)

text \<open>What a state looks like after directories were made in it.\<close>

definition grown :: "fs \<Rightarrow> fpath \<Rightarrow> fs \<Rightarrow> bool" where
  "grown t p t' =
     (\<exists>ds. t' = t @ map (\<lambda>q. (q, Dir)) ds \<and> (\<forall>q\<in>set ds. prefix q p \<and> q \<noteq> [] \<and> lookup t q = None))"

lemma map_of_dirs: "map_of (map (\<lambda>q. (q, Dir)) ds) q = (if q \<in> set ds then Some Dir else None)"
  by (induction ds) auto

lemma lookup_append_dirs:
  "lookup (t @ map (\<lambda>q. (q, Dir)) ds) q =
     (case lookup t q of Some n \<Rightarrow> Some n | None \<Rightarrow> if q \<in> set ds then Some Dir else None)"
  by (simp add: lookup_def map_add_def map_of_dirs split: option.splits)

lemma grown_refl: "grown t p t"
  unfolding grown_def by (rule exI [of _ "[]"]) simp

lemma grown_keeps:
  assumes "grown t p t'" and "lookup t q = Some n"
  shows "lookup t' q = Some n"
proof -
  from assms(1) obtain ds where "t' = t @ map (\<lambda>q. (q, Dir)) ds"
    unfolding grown_def by blast
  with assms(2) show ?thesis by (simp add: lookup_append_dirs)
qed

lemma grown_new:
  assumes "grown t p t'" and "lookup t q = None" and "lookup t' q = Some n"
  shows "n = Dir \<and> prefix q p \<and> q \<noteq> []"
proof -
  from assms(1) obtain ds where d: "t' = t @ map (\<lambda>q. (q, Dir)) ds"
    and e: "\<forall>q\<in>set ds. prefix q p \<and> q \<noteq> [] \<and> lookup t q = None"
    unfolding grown_def by blast
  from assms(2,3) d have "q \<in> set ds" "n = Dir"
    by (simp_all add: lookup_append_dirs split: if_splits)
  with e show ?thesis by blast
qed

lemma grown_keys:
  assumes "grown t p t'"
  shows "\<exists>ds. map fst t' = map fst t @ ds \<and> (\<forall>q\<in>set ds. prefix q p \<and> q \<noteq> [] \<and> lookup t q = None)"
proof -
  from assms obtain ds where d: "t' = t @ map (\<lambda>q. (q, Dir)) ds"
    and e: "\<forall>q\<in>set ds. prefix q p \<and> q \<noteq> [] \<and> lookup t q = None"
    unfolding grown_def by blast
  have "map fst (map (\<lambda>q. (q, Dir)) ds) = ds" by (induction ds) simp_all
  with d have "map fst t' = map fst t @ ds" by simp
  with e show ?thesis by blast
qed

lemma grown_step:
  assumes "grown t p t'" and "lookup t' q = None" and "prefix q r" and "q \<noteq> []" and "prefix p r"
  shows "grown t r (t' @ [(q, Dir)])"
proof -
  from assms(1) obtain ds where d: "t' = t @ map (\<lambda>q. (q, Dir)) ds"
    and e: "\<forall>q\<in>set ds. prefix q p \<and> q \<noteq> [] \<and> lookup t q = None"
    unfolding grown_def by blast
  have n: "lookup t q = None"
  proof (cases "lookup t q")
    case (Some n)
    from grown_keeps [OF assms(1) this] assms(2) show ?thesis by simp
  qed simp
  have 1: "t' @ [(q, Dir)] = t @ map (\<lambda>q. (q, Dir)) (ds @ [q])"
    using d by simp
  have 2: "\<forall>x\<in>set (ds @ [q]). prefix x r \<and> x \<noteq> [] \<and> lookup t x = None"
  proof
    fix x assume "x \<in> set (ds @ [q])"
    then consider "x \<in> set ds" | "x = q" by auto
    then show "prefix x r \<and> x \<noteq> [] \<and> lookup t x = None"
    proof cases
      case 1
      with e have "prefix x p" "x \<noteq> []" "lookup t x = None" by blast+
      with assms(5) show ?thesis using prefix_order.trans by blast
    next
      case 2
      with n assms(3,4) show ?thesis by simp
    qed
  qed
  from 1 2 show ?thesis unfolding grown_def by blast
qed

lemma grown_mono:
  assumes "grown t p t'" and "prefix p r"
  shows "grown t r t'"
proof -
  from assms(1) obtain ds where d: "t' = t @ map (\<lambda>q. (q, Dir)) ds"
    and e: "\<forall>q\<in>set ds. prefix q p \<and> q \<noteq> [] \<and> lookup t q = None"
    unfolding grown_def by blast
  from e assms(2) have "\<forall>q\<in>set ds. prefix q r \<and> q \<noteq> [] \<and> lookup t q = None"
    using prefix_order.trans by blast
  with d show ?thesis unfolding grown_def by blast
qed

lemma mkdir_exist_ok_cases:
  assumes "mkdir_exist_ok t p = (r, t')"
  shows "(t' = t \<and> (r = None \<longrightarrow> lookup t p = Some Dir)) \<or>
         (r = None \<and> p \<noteq> [] \<and> lookup t (butlast p) = Some Dir \<and> lookup t p = None \<and>
          t' = t @ [(p, Dir)])"
proof (cases "os_mkdir t p")
  case (Inl e)
  with assms show ?thesis by (auto simp: mkdir_exist_ok_def split: if_splits)
next
  case (Inr t'')
  with assms have "r = None" "t' = t''" by (simp_all add: mkdir_exist_ok_def)
  with Inr show ?thesis by (simp add: os_mkdir_Inr)
qed

lemma mkdir_parents_grown: "mkdir_parents t p = (r, t') \<Longrightarrow> grown t p t'"
proof (induction t p arbitrary: r t' rule: mkdir_parents.induct)
  case (1 t p)
  show ?case
  proof (cases "os_mkdir t p")
    case (Inr t'')
    with "1.prems" have "t' = t''" by (simp add: mkdir_parents.simps [of t p])
    with Inr have "t' = t @ [(p, Dir)]" "lookup t p = None" "p \<noteq> []" by (simp_all add: os_mkdir_Inr)
    with grown_step [OF grown_refl [of t p], of p p] show ?thesis by simp
  next
    case (Inl e)
    show ?thesis
    proof (cases "is_FileNotFoundError e \<and> p \<noteq> []")
      case False
      with Inl "1.prems" have "t' = t"
        by (auto simp: mkdir_parents.simps [of t p] split: if_splits)
      then show ?thesis by (simp add: grown_refl)
    next
      case True
      obtain r1 t1 where m: "mkdir_parents t (butlast p) = (r1, t1)"
        by (cases "mkdir_parents t (butlast p)")
      from "1.IH" [OF Inl _ _ m] True have g: "grown t (butlast p) t1" by simp
      then have g': "grown t p t1"
        by (rule grown_mono) (simp add: prefixeq_butlast)
      show ?thesis
      proof (cases r1)
        case (Some e')
        with Inl True m "1.prems" have "t' = t1"
          by (simp add: mkdir_parents.simps [of t p])
        with g' show ?thesis by simp
      next
        case None
        with Inl True m "1.prems" have "mkdir_exist_ok t1 p = (r, t')"
          by (simp add: mkdir_parents.simps [of t p])
        from mkdir_exist_ok_cases [OF this] show ?thesis
        proof
          assume "t' = t1 \<and> (r = None \<longrightarrow> lookup t1 p = Some Dir)"
          with g' show ?thesis by simp
        next
          assume "r = None \<and> p \<noteq> [] \<and> lookup t1 (butlast p) = Some Dir \<and> lookup t1 p = None \<and>
              t' = t1 @ [(p, Dir)]"
          with grown_step [OF g', of p p] show ?thesis by simp
        qed
      qed
    qed
  qed
qed

lemma mkdir_parents_success: "mkdir_parents t p = (None, t') \<Longrightarrow> lookup t' p = Some Dir"
proof (induction t p arbitrary: t' rule: mkdir_parents.induct)
  case (1 t p)
  show ?case
  proof (cases "os_mkdir t p")
    case (Inr t'')
    with "1.prems" have "t' = t''" by (simp add: mkdir_parents.simps [of t p])
    with Inr show ?thesis by (simp add: os_mkdir_Inr lookup_append_Dir)
  next
    case (Inl e)
    show ?thesis
    proof (cases "is_FileNotFoundError e")
      case False
      with Inl "1.prems" show ?thesis
        by (auto simp: mkdir_parents.simps [of t p] split: if_splits)
    next
      case True
      with Inl "1.prems" have ne: "p \<noteq> []"
        by (auto simp: mkdir_parents.simps [of t p] split: if_splits)
      obtain r1 t1 where m: "mkdir_parents t (butlast p) = (r1, t1)"
        by (cases "mkdir_parents t (butlast p)")
      with Inl True ne "1.prems" have r1: "r1 = None" and k: "mkdir_exist_ok t1 p = (None, t')"
        by (auto simp: mkdir_parents.simps [of t p] split: option.splits)
      from mkdir_exist_ok_cases [OF k] show ?thesis
        by (auto simp: lookup_append_Dir)
    qed
  qed
qed

subsection \<open>Well-formed file systems\<close>

text \<open>A file system is a tree: no location is listed twice, no name is \<^verbatim>\<open>..\<close>, and the
  parent of every entry is a directory.\<close>

definition wf_fs :: "fs \<Rightarrow> bool" where
  "wf_fs t =
     (distinct (map fst t) \<and>
      (\<forall>k\<in>set (map fst t). ''..'' \<notin> set k \<and> lookup t (butlast k) = Some Dir))"

lemma lookup_key: "lookup t k \<noteq> None \<Longrightarrow> k \<noteq> [] \<Longrightarrow> k \<in> set (map fst t)"
  using map_of_eq_None_iff [of t k] by (simp add: lookup_def)

lemma key_lookup: "k \<in> set (map fst t) \<Longrightarrow> lookup t k \<noteq> None"
  using map_of_eq_None_iff [of t k] by (simp add: lookup_def)

lemma lookup_root [simp]: "lookup t [] = Some Dir"
  by (simp add: lookup_def)

lemma wf_parent: "wf_fs t \<Longrightarrow> lookup t k \<noteq> None \<Longrightarrow> lookup t (butlast k) = Some Dir"
proof (cases "k = []")
  case True
  then show ?thesis by (simp add: lookup_def)
next
  case False
  assume "wf_fs t" "lookup t k \<noteq> None"
  with False lookup_key [of t k] show ?thesis unfolding wf_fs_def by blast
qed

lemma wf_ancestor:
  "wf_fs t \<Longrightarrow> lookup t k \<noteq> None \<Longrightarrow> strict_prefix q k \<Longrightarrow> lookup t q = Some Dir"
proof (induction k rule: rev_induct)
  case Nil
  then show ?case by simp
next
  case (snoc x ks)
  from wf_parent [OF snoc.prems(1,2)] have p: "lookup t ks = Some Dir" by simp
  from snoc.prems(3) have "prefix q ks" by (auto simp: strict_prefix_def)
  then consider "q = ks" | "strict_prefix q ks" by (auto simp: strict_prefix_def)
  then show ?case
  proof cases
    case 1
    with p show ?thesis by simp
  next
    case 2
    with snoc.IH [OF snoc.prems(1)] p show ?thesis by simp
  qed
qed

lemma wf_append_Dir:
  assumes "wf_fs t" and "lookup t p = None" and "lookup t (butlast p) = Some Dir"
    and "''..'' \<notin> set p"
  shows "wf_fs (t @ [(p, Dir)])"
proof -
  from assms(2) have ne: "p \<noteq> []" by (auto simp: lookup_def)
  from assms(2) ne have nk: "p \<notin> set (map fst t)" using key_lookup by blast
  have "lookup (t @ [(p, Dir)]) (butlast k) = Some Dir"
    if "k \<in> set (map fst t) \<or> k = p" for k
  proof -
    from that assms(1,3) have "lookup t (butlast k) = Some Dir"
      unfolding wf_fs_def by blast
    then show ?thesis by (simp add: lookup_append_Dir)
  qed
  moreover have "''..'' \<notin> set k" if "k \<in> set (map fst t) \<or> k = p" for k
    using that assms(1,4) unfolding wf_fs_def by blast
  ultimately show ?thesis
    using assms(1) nk unfolding wf_fs_def by auto
qed

lemma wf_mkdir_exist_ok:
  assumes "wf_fs t" and "mkdir_exist_ok t p = (r, t')" and "''..'' \<notin> set p"
  shows "wf_fs t'"
  using mkdir_exist_ok_cases [OF assms(2)] assms(1,3) by (auto intro: wf_append_Dir)

lemma wf_mkdir_parents:
  "wf_fs t \<Longrightarrow> mkdir_parents t p = (r, t') \<Longrightarrow> ''..'' \<notin> set p \<Longrightarrow> wf_fs t'"
proof (induction t p arbitrary: r t' rule: mkdir_parents.induct)
  case (1 t p)
  show ?case
  proof (cases "os_mkdir t p")
    case (Inr t'')
    with "1.prems" have "t' = t''" by (simp add: mkdir_parents.simps [of t p])
    with Inr "1.prems" show ?thesis by (auto simp: os_mkdir_Inr intro: wf_append_Dir)
  next
    case (Inl e)
    show ?thesis
    proof (cases "is_FileNotFoundError e \<and> p \<noteq> []")
      case False
      with Inl "1.prems" have "t' = t"
        by (auto simp: mkdir_parents.simps [of t p] split: if_splits)
      with "1.prems" show ?thesis by simp
    next
      case True
      obtain r1 t1 where m: "mkdir_parents t (butlast p) = (r1, t1)"
        by (cases "mkdir_parents t (butlast p)")
      from "1.prems"(3) have "''..'' \<notin> set (butlast p)" by (auto dest: in_set_butlastD)
      from "1.IH" [OF Inl _ _ "1.prems"(1) m this] True have w1: "wf_fs t1" by simp
      show ?thesis
      proof (cases r1)
        case (Some e')
        with Inl True m "1.prems" have "t' = t1"
          by (simp add: mkdir_parents.simps [of t p])
        with w1 show ?thesis by simp
      next
        case None
        with Inl True m "1.prems" have "mkdir_exist_ok t1 p = (r, t')"
          by (simp add: mkdir_parents.simps [of t p])
        from wf_mkdir_exist_ok [OF w1 this "1.prems"(3)] show ?thesis .
      qed
    qed
  qed
qed

lemma mkdir_parents_root: "mkdir_parents t [] = (None, t)"
  by (simp add: mkdir_parents.simps [of t "[]"] os_mkdir_def lookup_def)

lemma mkdir_parents_parent_dir:
  assumes "p \<noteq> []" and "lookup t (butlast p) = Some Dir"
  shows "mkdir_parents t p = mkdir_exist_ok t p"
proof (cases "os_mkdir t p")
  case (Inr t')
  then show ?thesis by (simp add: mkdir_parents.simps [of t p] mkdir_exist_ok_def)
next
  case (Inl e)
  with os_mkdir_FileNotFound [OF Inl] assms have "\<not> is_FileNotFoundError e" by simp
  with Inl show ?thesis by (simp add: mkdir_parents.simps [of t p] mkdir_exist_ok_def)
qed

lemma mkdir_exist_ok_existing:
  assumes "lookup t p = Some Dir" and "lookup t (butlast p) = Some Dir"
  shows "mkdir_exist_ok t p = (None, t)"
proof -
  from assms have "os_mkdir t p = Inl (FileExistsError p)"
    by (simp add: os_mkdir_def)
  with assms(1) show ?thesis by (simp add: mkdir_exist_ok_def)
qed

lemma mkdir_parents_existing:
  assumes "wf_fs t" and "lookup t p = Some Dir"
  shows "mkdir_parents t p = (None, t)"
proof (cases "p = []")
  case True
  then show ?thesis by (simp add: mkdir_parents_root)
next
  case False
  from wf_parent [OF assms(1)] assms(2) have "lookup t (butlast p) = Some Dir" by simp
  with False assms(2) show ?thesis
    by (simp add: mkdir_parents_parent_dir mkdir_exist_ok_existing)
qed

lemma mkdir_exist_ok_idem:
  assumes "mkdir_exist_ok t p = (r, t')"
  shows "mkdir_exist_ok t' p = (r, t')"
  using mkdir_exist_ok_cases [OF assms] assms
  by (auto simp: lookup_append_Dir mkdir_exist_ok_existing)

lemma mkdir_parents_fail_keeps:
  assumes "mkdir_parents t p = (Some e, t')"
  shows "lookup t' p = lookup t p"
proof (cases "lookup t p")
  case (Some n)
  from grown_keeps [OF mkdir_parents_grown [OF assms] this] Some show ?thesis by simp
next
  case None
  show ?thesis
  proof (cases "os_mkdir t p")
    case (Inr t'')
    with assms show ?thesis by (simp add: mkdir_parents.simps [of t p])
  next
    case (Inl e0)
    show ?thesis
    proof (cases "is_FileNotFoundError e0 \<and> p \<noteq> []")
      case False
      with Inl assms have "t' = t"
        by (auto simp: mkdir_parents.simps [of t p] split: if_splits)
      then show ?thesis by simp
    next
      case True
      obtain r1 t1 where m: "mkdir_parents t (butlast p) = (r1, t1)"
        by (cases "mkdir_parents t (butlast p)")
      have "t' = t1"
      proof (cases r1)
        case (Some e')
        with Inl True m assms show ?thesis by (simp add: mkdir_parents.simps [of t p])
      next
        case n: None
        with Inl True m assms have "mkdir_exist_ok t1 p = (Some e, t')"
          by (simp add: mkdir_parents.simps [of t p])
        from mkdir_exist_ok_cases [OF this] show ?thesis by simp
      qed
      with m have g: "grown t (butlast p) t'" using mkdir_parents_grown by blast
      have "lookup t' p = None"
      proof (cases "lookup t' p")
        case (Some n)
        from grown_new [OF g None Some] have "prefix p (butlast p)" by simp
        then have "length p \<le> length (butlast p)" by (rule prefix_length_le)
        with True show ?thesis by (cases p rule: rev_cases) simp_all
      qed simp
      with None show ?thesis by simp
    qed
  qed
qed

lemma mkdir_parents_idem: "mkdir_parents t p = (r, t') \<Longrightarrow> mkdir_parents t' p = (r, t')"
proof (induction t p arbitrary: r t' rule: mkdir_parents.induct)
  case (1 t p)
  show ?case
  proof (cases "os_mkdir t p")
    case (Inr t'')
    with "1.prems" have e: "r = None" "t' = t''" by (simp_all add: mkdir_parents.simps [of t p])
    with Inr have f: "p \<noteq> []" "lookup t' (butlast p) = Some Dir" "lookup t' p = Some Dir"
      by (auto simp: os_mkdir_Inr lookup_append_Dir)
    with e show ?thesis by (simp add: mkdir_parents_parent_dir mkdir_exist_ok_existing)
  next
    case (Inl e)
    show ?thesis
    proof (cases "is_FileNotFoundError e \<and> p \<noteq> []")
      case False
      with Inl "1.prems" have "t' = t"
        by (auto simp: mkdir_parents.simps [of t p] split: if_splits)
      with "1.prems" show ?thesis by simp
    next
      case True
      with os_mkdir_FileNotFound [OF Inl] have pn: "lookup t (butlast p) = None" by simp
      obtain r1 t1 where m: "mkdir_parents t (butlast p) = (r1, t1)"
        by (cases "mkdir_parents t (butlast p)")
      from "1.IH" [OF Inl _ _ m] True have ih: "mkdir_parents t1 (butlast p) = (r1, t1)" by simp
      show ?thesis
      proof (cases r1)
        case (Some e')
        with Inl True m "1.prems" have e: "t' = t1" "r = Some e'"
          by (simp_all add: mkdir_parents.simps [of t p])
        from mkdir_parents_fail_keeps [of t "butlast p" e' t1] m Some pn
        have "lookup t1 (butlast p) = None" by simp
        with True have "os_mkdir t1 p = Inl (FileNotFoundError p)" by (simp add: os_mkdir_def)
        with True ih Some e show ?thesis by (simp add: mkdir_parents.simps [of t1 p])
      next
        case None
        with Inl True m "1.prems" have k: "mkdir_exist_ok t1 p = (r, t')"
          by (simp add: mkdir_parents.simps [of t p])
        from m None have d1: "lookup t1 (butlast p) = Some Dir"
          using mkdir_parents_success by blast
        from mkdir_exist_ok_cases [OF k] d1 have "lookup t' (butlast p) = Some Dir"
          by (auto simp: lookup_append_Dir)
        with True have "mkdir_parents t' p = mkdir_exist_ok t' p"
          by (simp add: mkdir_parents_parent_dir)
        with mkdir_exist_ok_idem [OF k] show ?thesis by simp
      qed
    qed
  qed
qed

subsection \<open>Copying a file\<close>

text \<open>Where \<^verbatim>\<open>shutil.copy\<close> writes: into the destination when that is a directory.\<close>

definition copy_target :: "fpath \<Rightarrow> fs \<Rightarrow> path \<Rightarrow> path \<Rightarrow> fpath" where
  "copy_target cw t src dst =
     os_path cw (if lookup t (os_path cw dst) = Some Dir
                 then joinpath dst (Path False [name src]) else dst)"

lemma lookup_update:
  "d \<noteq> [] \<Longrightarrow> lookup (AList.update d v t) q = (if q = d then Some v else lookup t q)"
  by (simp add: lookup_def update_conv')

lemma shutil_copy_alt:
  "shutil_copy cw t src dst =
     (if lookup t (os_path cw src) \<noteq> None \<and> os_path cw src = copy_target cw t src dst
      then (Some (SameFileError (os_path cw src) (copy_target cw t src dst)), t)
      else case lookup t (os_path cw src) of
             None \<Rightarrow> (Some (FileNotFoundError (os_path cw src)), t)
           | Some Dir \<Rightarrow> (Some (IsADirectoryError (os_path cw src)), t)
           | Some (File c) \<Rightarrow>
               (case lookup t (copy_target cw t src dst) of
                  Some Dir \<Rightarrow> (Some (IsADirectoryError (copy_target cw t src dst)), t)
                | Some (File c') \<Rightarrow> (None, AList.update (copy_target cw t src dst) (File c) t)
                | None \<Rightarrow>
                    (case lookup t (butlast (copy_target cw t src dst)) of
                       None \<Rightarrow> (Some (FileNotFoundError (copy_target cw t src dst)), t)
                     | Some (File c') \<Rightarrow> (Some (NotADirectoryError (copy_target cw t src dst)), t)
                     | Some Dir \<Rightarrow> (None, AList.update (copy_target cw t src dst) (File c) t))))"
  unfolding shutil_copy_def copy_target_def Let_def by (rule refl)

lemma shutil_copy_fail: "shutil_copy cw t src dst = (Some e, t') \<Longrightarrow> t' = t"
  unfolding shutil_copy_alt by (auto split: if_splits option.splits node.splits)

lemma shutil_copy_ok:
  assumes "shutil_copy cw t src dst = (None, t')"
  shows "\<exists>c. lookup t (os_path cw src) = Some (File c) \<and>
             copy_target cw t src dst \<noteq> os_path cw src \<and>
             copy_target cw t src dst \<noteq> [] \<and>
             lookup t (copy_target cw t src dst) \<noteq> Some Dir \<and>
             (lookup t (copy_target cw t src dst) = None \<longrightarrow>
                lookup t (butlast (copy_target cw t src dst)) = Some Dir) \<and>
             t' = AList.update (copy_target cw t src dst) (File c) t"
proof -
  define d where "d = copy_target cw t src dst"
  define s where "s = os_path cw src"
  note a = assms [unfolded shutil_copy_alt, folded d_def s_def]
  from a obtain c where c: "lookup t s = Some (File c)"
    by (cases "lookup t s") (auto split: if_splits node.splits)
  with a have ne: "s \<noteq> d" by (auto split: if_splits)
  from a c ne have nd: "lookup t d \<noteq> Some Dir" by auto
  then have nr: "d \<noteq> []" by auto
  from a c ne have pd: "lookup t d = None \<longrightarrow> lookup t (butlast d) = Some Dir"
    by (auto split: option.splits node.splits)
  from a c ne have "t' = AList.update d (File c) t"
    by (auto split: option.splits node.splits)
  with c ne nd nr pd show ?thesis unfolding d_def s_def by metis
qed

lemma shutil_copy_okI:
  assumes "lookup t (os_path cw src) = Some (File c)"
    and "copy_target cw t src dst \<noteq> os_path cw src"
    and "lookup t (copy_target cw t src dst) \<noteq> Some Dir"
    and "lookup t (copy_target cw t src dst) = None \<longrightarrow>
           lookup t (butlast (copy_target cw t src dst)) = Some Dir"
  shows "shutil_copy cw t src dst = (None, AList.update (copy_target cw t src dst) (File c) t)"
proof -
  define d where "d = copy_target cw t src dst"
  define s where "s = os_path cw src"
  note a = assms [folded d_def s_def]
  from a have "(if lookup t s \<noteq> None \<and> s = d
      then (Some (SameFileError s d), t)
      else case lookup t s of
             None \<Rightarrow> (Some (FileNotFoundError s), t)
           | Some Dir \<Rightarrow> (Some (IsADirectoryError s), t)
           | Some (File c) \<Rightarrow>
               (case lookup t d of
                  Some Dir \<Rightarrow> (Some (IsADirectoryError d), t)
                | Some (File c') \<Rightarrow> (None, AList.update d (File c) t)
                | None \<Rightarrow>
                    (case lookup t (butlast d) of
                       None \<Rightarrow> (Some (FileNotFoundError d), t)
                     | Some (File c') \<Rightarrow> (Some (NotADirectoryError d), t)
                     | Some Dir \<Rightarrow> (None, AList.update d (File c) t)))) =
     (None, AList.update d (File c) t)"
    by (auto split: option.splits node.splits)
  then show ?thesis unfolding shutil_copy_alt d_def s_def .
qed

lemma shutil_copy_stable:
  "shutil_copy cw t src dst = (None, t) \<longleftrightarrow>
     (\<exists>c. lookup t (os_path cw src) = Some (File c) \<and>
          copy_target cw t src dst \<noteq> os_path cw src \<and>
          lookup t (copy_target cw t src dst) = Some (File c))"
proof
  assume a: "shutil_copy cw t src dst = (None, t)"
  from shutil_copy_ok [OF a] obtain c where c: "lookup t (os_path cw src) = Some (File c)"
    "copy_target cw t src dst \<noteq> os_path cw src" "copy_target cw t src dst \<noteq> []"
    "t = AList.update (copy_target cw t src dst) (File c) t"
    by blast
  from c(3) have "lookup (AList.update (copy_target cw t src dst) (File c) t)
      (copy_target cw t src dst) = Some (File c)"
    by (simp add: lookup_update)
  with c(4) have "lookup t (copy_target cw t src dst) = Some (File c)" by simp
  with c(1,2) show "\<exists>c. lookup t (os_path cw src) = Some (File c) \<and>
          copy_target cw t src dst \<noteq> os_path cw src \<and>
          lookup t (copy_target cw t src dst) = Some (File c)"
    by blast
next
  assume "\<exists>c. lookup t (os_path cw src) = Some (File c) \<and>
          copy_target cw t src dst \<noteq> os_path cw src \<and>
          lookup t (copy_target cw t src dst) = Some (File c)"
  then obtain c where c: "lookup t (os_path cw src) = Some (File c)"
    "copy_target cw t src dst \<noteq> os_path cw src"
    "lookup t (copy_target cw t src dst) = Some (File c)"
    by blast
  from c(3) have "copy_target cw t src dst \<noteq> []" by auto
  with c(3) have "map_of t (copy_target cw t src dst) = Some (File c)"
    by (simp add: lookup_def)
  then have "AList.update (copy_target cw t src dst) (File c) t = t" by (rule update_triv)
  with shutil_copy_okI [OF c(1,2)] c(3) show "shutil_copy cw t src dst = (None, t)" by simp
qed

lemma copy_target_after:
  assumes "d = copy_target cw t src dst" and "d \<noteq> []" and "lookup t d \<noteq> Some Dir"
  shows "copy_target cw (AList.update d (File c) t) src dst = d"
proof (cases "lookup t (os_path cw dst) = Some Dir")
  case True
  with assms have "os_path cw dst \<noteq> d" by auto
  with True assms(2) have "lookup (AList.update d (File c) t) (os_path cw dst) = Some Dir"
    by (simp add: lookup_update)
  with True assms(1) show ?thesis by (simp add: copy_target_def)
next
  case False
  with assms(1) have d: "d = os_path cw dst" by (simp add: copy_target_def)
  with assms(2) have "lookup (AList.update d (File c) t) (os_path cw dst) = Some (File c)"
    by (simp add: lookup_update)
  with d show ?thesis by (simp add: copy_target_def)
qed

lemma shutil_copy_idem:
  assumes "shutil_copy cw t src dst = (r, t')"
  shows "shutil_copy cw t' src dst = (r, t')"
proof (cases r)
  case (Some e)
  with assms shutil_copy_fail [of cw t src dst e t'] show ?thesis by simp
next
  case None
  let ?d = "copy_target cw t src dst"
  from assms None have "shutil_copy cw t src dst = (None, t')" by simp
  from shutil_copy_ok [OF this]
  obtain c where c: "lookup t (os_path cw src) = Some (File c)" "?d \<noteq> os_path cw src"
    "?d \<noteq> []" "lookup t ?d \<noteq> Some Dir" "t' = AList.update ?d (File c) t"
    by blast
  from copy_target_after [OF refl c(3,4), of c] c(5) have d': "copy_target cw t' src dst = ?d"
    by simp
  from c have "lookup t' (os_path cw src) = Some (File c)" "lookup t' ?d = Some (File c)"
    by (simp_all add: lookup_update)
  with d' c(2) have "shutil_copy cw t' src dst = (None, t')"
    by (simp add: shutil_copy_stable)
  with None show ?thesis by simp
qed

lemma wf_update_File:
  assumes "wf_fs t" and "d \<noteq> []" and "''..'' \<notin> set d" and "lookup t d \<noteq> Some Dir"
    and "lookup t d = None \<longrightarrow> lookup t (butlast d) = Some Dir"
  shows "wf_fs (AList.update d (File c) t)"
proof -
  let ?t = "AList.update d (File c) t"
  have pd: "lookup t (butlast d) = Some Dir"
    using assms(1,5) wf_parent [of t d] by blast
  have keys: "set (map fst ?t) = insert d (set (map fst t))"
    using dom_update [of d "File c" t] by simp
  have "lookup ?t (butlast k) = Some Dir \<and> ''..'' \<notin> set k" if k: "k \<in> set (map fst ?t)" for k
  proof -
    from k keys have "k = d \<or> k \<in> set (map fst t)" by simp
    with pd assms(1,3) have o: "lookup t (butlast k) = Some Dir" "''..'' \<notin> set k"
      unfolding wf_fs_def by blast+
    with assms(4) have "butlast k \<noteq> d" by auto
    with o assms(2) show ?thesis by (simp add: lookup_update)
  qed
  moreover from assms(1) have "distinct (map fst ?t)"
    unfolding wf_fs_def by (simp add: distinct_update)
  ultimately show ?thesis unfolding wf_fs_def by blast
qed

lemma wf_shutil_copy:
  assumes "wf_fs t" and "shutil_copy cw t src dst = (r, t')"
  shows "wf_fs t'"
proof (cases r)
  case (Some e)
  with assms shutil_copy_fail [of cw t src dst e t'] show ?thesis by simp
next
  case None
  from assms(2) None have "shutil_copy cw t src dst = (None, t')" by simp
  from shutil_copy_ok [OF this]
  obtain c where c: "copy_target cw t src dst \<noteq> []"
    "lookup t (copy_target cw t src dst) \<noteq> Some Dir"
    "lookup t (copy_target cw t src dst) = None \<longrightarrow>
       lookup t (butlast (copy_target cw t src dst)) = Some Dir"
    "t' = AList.update (copy_target cw t src dst) (File c) t"
    by (elim exE conjE)
  have "''..'' \<notin> set (copy_target cw t src dst)"
    by (simp add: copy_target_def os_path_no_dotdot)
  from wf_update_File [OF assms(1) c(1) this c(2,3)] c(4) show ?thesis by simp
qed

subsection \<open>Making the directories, then copying\<close>

lemma grown_same_length:
  assumes "grown t p t'" and "length t' \<le> length t"
  shows "t' = t"
proof -
  from assms(1) obtain ds where "t' = t @ map (\<lambda>q. (q, Dir)) ds"
    unfolding grown_def by blast
  with assms(2) show ?thesis by simp
qed

lemma mkdir_parents_stable:
  "mkdir_parents t q = (None, t) \<longleftrightarrow> lookup t q = Some Dir \<and> lookup t (butlast q) \<noteq> None"
proof
  assume a: "mkdir_parents t q = (None, t)"
  from mkdir_parents_success [OF a] have d: "lookup t q = Some Dir" .
  have "lookup t (butlast q) \<noteq> None"
  proof
    assume n: "lookup t (butlast q) = None"
    then have ne: "q \<noteq> []" by auto
    with n have o: "os_mkdir t q = Inl (FileNotFoundError q)" by (simp add: os_mkdir_def)
    obtain r1 t1 where m: "mkdir_parents t (butlast q) = (r1, t1)"
      by (cases "mkdir_parents t (butlast q)")
    from a o ne m have r1: "r1 = None" and k: "mkdir_exist_ok t1 q = (None, t)"
      by (auto simp: mkdir_parents.simps [of t q] split: option.splits)
    from mkdir_exist_ok_cases [OF k] have "length t1 \<le> length t" by auto
    from grown_same_length [OF mkdir_parents_grown [OF m] this] have "t1 = t" .
    with m r1 mkdir_parents_success [of t "butlast q" t] n show False by simp
  qed
  with d show "lookup t q = Some Dir \<and> lookup t (butlast q) \<noteq> None" by simp
next
  assume b: "lookup t q = Some Dir \<and> lookup t (butlast q) \<noteq> None"
  show "mkdir_parents t q = (None, t)"
  proof (cases "os_mkdir t q")
    case (Inr t')
    with b show ?thesis by (simp add: os_mkdir_Inr)
  next
    case (Inl e)
    from os_mkdir_FileNotFound [OF Inl] b have "\<not> is_FileNotFoundError e" by simp
    with Inl b show ?thesis by (simp add: mkdir_parents.simps [of t q])
  qed
qed

text \<open>Making the parent directories and copying one file, on the file system alone.\<close>

definition stage_file :: "fpath \<Rightarrow> fpath \<Rightarrow> path \<Rightarrow> path \<Rightarrow> fs \<Rightarrow> error option \<times> fs" where
  "stage_file cw q src dst t =
     (case mkdir_parents t q of
        (Some e, t') \<Rightarrow> (Some e, t')
      | (None, t') \<Rightarrow> shutil_copy cw t' src dst)"

lemma seq_mkdir_copy:
  "fst (seq [do_mkdir w p, do_copy w src dst] s) =
     fst (stage_file (cwd w) (os_path (cwd w) p) src dst (files s)) \<and>
   files (snd (seq [do_mkdir w p, do_copy w src dst] s)) =
     snd (stage_file (cwd w) (os_path (cwd w) p) src dst (files s))"
  by (simp add: do_mkdir_def do_copy_def stage_file_def Let_def
      split: prod.splits option.splits)

lemma update_keeps_existing: "lookup t k \<noteq> None \<Longrightarrow> lookup (AList.update d v t) k \<noteq> None"
  by (auto simp: lookup_def update_conv')

lemma update_keeps_dir:
  "lookup t k = Some Dir \<Longrightarrow> lookup t d \<noteq> Some Dir \<Longrightarrow> d \<noteq> [] \<Longrightarrow>
   lookup (AList.update d v t) k = Some Dir"
  by (auto simp: lookup_update)

lemma mkdir_stable_after_copy:
  assumes "mkdir_parents t q = (None, t)" and "shutil_copy cw t src dst = (r, t')"
  shows "mkdir_parents t' q = (None, t')"
proof (cases r)
  case (Some e)
  with assms shutil_copy_fail [of cw t src dst e t'] show ?thesis by simp
next
  case None
  with assms(2) have "shutil_copy cw t src dst = (None, t')" by simp
  from shutil_copy_ok [OF this]
  obtain c where c: "copy_target cw t src dst \<noteq> []"
    "lookup t (copy_target cw t src dst) \<noteq> Some Dir"
    "t' = AList.update (copy_target cw t src dst) (File c) t"
    by (elim exE conjE)
  from assms(1) have "lookup t q = Some Dir" "lookup t (butlast q) \<noteq> None"
    by (simp_all add: mkdir_parents_stable)
  with c have "lookup t' q = Some Dir" "lookup t' (butlast q) \<noteq> None"
    by (simp_all add: update_keeps_dir update_keeps_existing)
  then show ?thesis by (simp add: mkdir_parents_stable)
qed

lemma stage_file_idem:
  assumes "stage_file cw q src dst t = (r, t')"
  shows "stage_file cw q src dst t' = (r, t')"
proof -
  obtain r1 t1 where m: "mkdir_parents t q = (r1, t1)" by (cases "mkdir_parents t q")
  from mkdir_parents_idem [OF m] have m1: "mkdir_parents t1 q = (r1, t1)" .
  show ?thesis
  proof (cases r1)
    case (Some e)
    with m assms have "r = Some e" "t' = t1" by (simp_all add: stage_file_def)
    with m1 Some show ?thesis by (simp add: stage_file_def)
  next
    case None
    with m assms have c: "shutil_copy cw t1 src dst = (r, t')" by (simp add: stage_file_def)
    from m1 None have "mkdir_parents t1 q = (None, t1)" by simp
    from mkdir_stable_after_copy [OF this c] shutil_copy_idem [OF c]
    show ?thesis by (simp add: stage_file_def)
  qed
qed


subsection \<open>A loop of staging jobs\<close>

text \<open>A job is the directory to make, the source and the destination. A job is stable in a
  tree when running it there succeeds and changes nothing.\<close>

type_synonym job = "fpath \<times> path \<times> path"

definition stage_job :: "fpath \<Rightarrow> job \<Rightarrow> fs \<Rightarrow> error option \<times> fs" where
  "stage_job cw j t = stage_file cw (fst j) (fst (snd j)) (snd (snd j)) t"

fun stage_all :: "fpath \<Rightarrow> job list \<Rightarrow> fs \<Rightarrow> error option \<times> fs" where
  "stage_all cw [] t = (None, t)"
| "stage_all cw (j # js) t =
     (case stage_job cw j t of
        (Some e, t') \<Rightarrow> (Some e, t')
      | (None, t') \<Rightarrow> stage_all cw js t')"

lemma stage_job_idem: "stage_job cw j t = (r, t') \<Longrightarrow> stage_job cw j t' = (r, t')"
  unfolding stage_job_def by (rule stage_file_idem)

lemma update_length: "length t \<le> length (AList.update d v t)"
  by (induction t) auto

lemma stage_file_stable:
  "stage_file cw q src dst t = (None, t) \<longleftrightarrow>
     mkdir_parents t q = (None, t) \<and> shutil_copy cw t src dst = (None, t)"
proof
  assume a: "stage_file cw q src dst t = (None, t)"
  obtain r1 t1 where m: "mkdir_parents t q = (r1, t1)" by (cases "mkdir_parents t q")
  with a have r1: "r1 = None" and c: "shutil_copy cw t1 src dst = (None, t)"
    by (auto simp: stage_file_def split: option.splits)
  from shutil_copy_ok [OF c] obtain c' where
    "t = AList.update (copy_target cw t1 src dst) (File c') t1"
    by (elim exE conjE)
  with update_length [of t1 "copy_target cw t1 src dst" "File c'"]
  have "length t1 \<le> length t" by simp
  from grown_same_length [OF mkdir_parents_grown [OF m] this] have "t1 = t" .
  with m r1 c show "mkdir_parents t q = (None, t) \<and> shutil_copy cw t src dst = (None, t)"
    by simp
next
  assume "mkdir_parents t q = (None, t) \<and> shutil_copy cw t src dst = (None, t)"
  then show "stage_file cw q src dst t = (None, t)" by (simp add: stage_file_def)
qed

lemma stage_all_stable_general:
  assumes step: "\<forall>j\<in>R. \<forall>t r t'. I t \<longrightarrow> stage_job cw j t = (r, t') \<longrightarrow>
      I t' \<and> (\<forall>k\<in>S. stage_job cw k t = (None, t) \<longrightarrow> stage_job cw k t' = (None, t'))"
  shows "set js \<subseteq> R \<Longrightarrow> set js \<subseteq> S \<Longrightarrow> I t \<Longrightarrow> D \<subseteq> S \<Longrightarrow>
     \<forall>k\<in>D. stage_job cw k t = (None, t) \<Longrightarrow>
     stage_all cw js t = (r, t1) \<Longrightarrow>
     stage_all cw js t1 = (r, t1) \<and> I t1 \<and> (\<forall>k\<in>D. stage_job cw k t1 = (None, t1)) \<and>
     (r = None \<longrightarrow> (\<forall>k\<in>set js. stage_job cw k t1 = (None, t1)))"
proof (induction js arbitrary: t D)
  case Nil
  then show ?case by simp
next
  case (Cons j js)
  obtain rj tj where j: "stage_job cw j t = (rj, tj)" by (cases "stage_job cw j t")
  from Cons.prems(1,2) have ju: "j \<in> R" "j \<in> S" by simp_all
  from step ju(1) Cons.prems(3) j
  have i: "I tj" and k: "\<forall>k\<in>S. stage_job cw k t = (None, t) \<longrightarrow> stage_job cw k tj = (None, tj)"
    by blast+
  from stage_job_idem [OF j] have jj: "stage_job cw j tj = (rj, tj)" .
  from k Cons.prems(4,5) have d: "\<forall>k\<in>D. stage_job cw k tj = (None, tj)" by blast
  show ?case
  proof (cases rj)
    case (Some e)
    with j Cons.prems(6) have "r = Some e" "t1 = tj" by simp_all
    with jj Some i d show ?thesis by simp
  next
    case None
    with j Cons.prems(6) have rest: "stage_all cw js tj = (r, t1)" by simp
    from Cons.prems(1,2) have 1: "set js \<subseteq> R" "set js \<subseteq> S" by simp_all
    from Cons.prems(4) ju have 2: "insert j D \<subseteq> S" by simp
    from d jj None have 3: "\<forall>k\<in>insert j D. stage_job cw k tj = (None, tj)" by simp
    from Cons.IH [OF 1 i 2 3 rest]
    have a: "stage_all cw js t1 = (r, t1)" and b: "I t1"
      and c: "\<forall>k\<in>insert j D. stage_job cw k t1 = (None, t1)"
      and e: "r = None \<longrightarrow> (\<forall>k\<in>set js. stage_job cw k t1 = (None, t1))"
      by blast+
    from c have "stage_job cw j t1 = (None, t1)" by simp
    with a b c e show ?thesis by simp
  qed
qed

lemma stage_all_idem:
  assumes "\<forall>j\<in>set js. \<forall>t r t'. I t \<longrightarrow> stage_job cw j t = (r, t') \<longrightarrow>
      I t' \<and> (\<forall>k\<in>set js \<union> F. stage_job cw k t = (None, t) \<longrightarrow> stage_job cw k t' = (None, t'))"
    and "I t" and "stage_all cw js t = (r, t1)"
    and "\<forall>k\<in>F. stage_job cw k t = (None, t)"
  shows "stage_all cw js t1 = (r, t1) \<and> I t1 \<and> (\<forall>k\<in>F. stage_job cw k t1 = (None, t1)) \<and>
     (r = None \<longrightarrow> (\<forall>k\<in>set js. stage_job cw k t1 = (None, t1)))"
proof -
  have a: "set js \<subseteq> set js" and b: "set js \<subseteq> set js \<union> F" and c: "F \<subseteq> set js \<union> F"
    by auto
  from stage_all_stable_general [OF assms(1) a b assms(2) c assms(4) assms(3)]
  show ?thesis .
qed

subsection \<open>The jobs of the asset loop\<close>

text \<open>The jobs of the asset loop: the source is \<open>T @ rel\<close>, the destination \<open>D @ rel\<close>.\<close>

definition asset_job :: "fpath \<Rightarrow> fpath \<Rightarrow> fpath \<Rightarrow> job \<Rightarrow> bool" where
  "asset_job cw T D j =
     (\<exists>rel. rel \<noteq> [] \<and> ''..'' \<notin> set (D @ rel) \<and> ends_with (last rel) ''.xml'' \<and>
        fst j = D @ butlast rel \<and>
        os_path cw (fst (snd j)) = T @ rel \<and>
        os_path cw (snd (snd j)) = D @ rel \<and>
        os_path cw (joinpath (snd (snd j)) (Path False [name (fst (snd j))])) =
          D @ rel @ [last rel])"

definition staging_inv :: "fpath \<Rightarrow> job list \<Rightarrow> fs \<Rightarrow> fs \<Rightarrow> bool" where
  "staging_inv T js t0 t =
     (wf_fs t \<and>
      (\<forall>k. prefix T k \<longrightarrow> lookup t k = lookup t0 k) \<and>
      filter (prefix T) (map fst t) = filter (prefix T) (map fst t0) \<and>
      (\<forall>k. lookup t k = Some Dir \<longrightarrow>
         lookup t0 k = Some Dir \<or> (\<exists>j\<in>set js. prefix k (fst j))))"

lemma apart:
  assumes "\<not> prefix T D" and "\<not> prefix D T" and "prefix T (D @ x)"
  shows False
  using assms by (auto simp: prefix_append)

lemma apart_below:
  assumes "\<not> prefix T D" and "\<not> prefix D T" and "prefix T k" and "prefix k (D @ x)"
  shows False
proof -
  from assms(3,4) have "prefix T (D @ x)" by (rule prefix_order.trans)
  with assms(1,2) show False by (rule apart)
qed

lemma copy_target_grown:
  assumes "shutil_copy cw t src dst = (None, t)" and "grown t p t1"
  shows "copy_target cw t1 src dst = copy_target cw t src dst"
proof (cases "lookup t (os_path cw dst) = Some Dir")
  case True
  from grown_keeps [OF assms(2) True] True show ?thesis by (simp add: copy_target_def)
next
  case False
  then have d: "copy_target cw t src dst = os_path cw dst" by (simp add: copy_target_def)
  from assms(1) obtain c where "lookup t (copy_target cw t src dst) = Some (File c)"
    unfolding shutil_copy_stable by blast
  with d have "lookup t (os_path cw dst) = Some (File c)" by simp
  from grown_keeps [OF assms(2) this] False show ?thesis by (simp add: copy_target_def)
qed

lemma copy_stable_grown:
  assumes "shutil_copy cw t src dst = (None, t)" and "grown t p t1"
  shows "shutil_copy cw t1 src dst = (None, t1)"
proof -
  from assms(1) obtain c where c: "lookup t (os_path cw src) = Some (File c)"
    "copy_target cw t src dst \<noteq> os_path cw src"
    "lookup t (copy_target cw t src dst) = Some (File c)"
    unfolding shutil_copy_stable by blast
  from copy_target_grown [OF assms] have e: "copy_target cw t1 src dst = copy_target cw t src dst" .
  from grown_keeps [OF assms(2) c(1)] grown_keeps [OF assms(2) c(3)] c(2) e
  show ?thesis unfolding shutil_copy_stable by simp
qed

lemma mkdir_stable_grown:
  assumes "mkdir_parents t q = (None, t)" and "grown t p t1"
  shows "mkdir_parents t1 q = (None, t1)"
proof -
  from assms(1) obtain n where "lookup t q = Some Dir" "lookup t (butlast q) = Some n"
    unfolding mkdir_parents_stable by blast
  with grown_keeps [OF assms(2)] have "lookup t1 q = Some Dir" "lookup t1 (butlast q) = Some n"
    by blast+
  then show ?thesis unfolding mkdir_parents_stable by simp
qed

lemma job_stable_grown:
  assumes "stage_job cw k t = (None, t)" and "grown t p t1"
  shows "stage_job cw k t1 = (None, t1)"
  using assms mkdir_stable_grown copy_stable_grown
  unfolding stage_job_def stage_file_stable by blast

lemma inv_mkdir:
  assumes inc: "\<not> prefix T D" "\<not> prefix D T"
    and j: "j \<in> set js" "asset_job cw T D j"
    and inv: "staging_inv T js t0 t"
    and m: "mkdir_parents t (fst j) = (r, t1)"
  shows "staging_inv T js t0 t1"
proof -
  from j(2) obtain rel where rel: "''..'' \<notin> set (D @ rel)" "fst j = D @ butlast rel"
    unfolding asset_job_def by blast
  from rel have nd: "''..'' \<notin> set (fst j)" by (auto dest: in_set_butlastD)
  note g = mkdir_parents_grown [OF m]
  from inv have w: "wf_fs t" unfolding staging_inv_def by blast
  from wf_mkdir_parents [OF w m nd] have 1: "wf_fs t1" .
  have out: "\<not> prefix T k" if "prefix k (fst j)" for k
    using that apart_below [OF inc, of k "butlast rel"] rel(2) by auto
  have 2: "lookup t1 k = lookup t0 k" if p: "prefix T k" for k
  proof -
    have "lookup t1 k = lookup t k"
    proof (cases "lookup t k")
      case (Some n)
      from grown_keeps [OF g this] Some show ?thesis by simp
    next
      case None
      have "lookup t1 k = None"
      proof (cases "lookup t1 k")
        case (Some n)
        from grown_new [OF g None Some] out p show ?thesis by blast
      qed simp
      with None show ?thesis by simp
    qed
    with inv p show ?thesis unfolding staging_inv_def by simp
  qed
  from grown_keys [OF g] obtain ds where ds: "map fst t1 = map fst t @ ds"
    "\<forall>q\<in>set ds. prefix q (fst j)"
    by blast
  from ds(2) out have "filter (prefix T) ds = []" by (simp add: filter_empty_conv)
  with ds(1) inv have 3: "filter (prefix T) (map fst t1) = filter (prefix T) (map fst t0)"
    unfolding staging_inv_def by simp
  have 4: "lookup t0 k = Some Dir \<or> (\<exists>j\<in>set js. prefix k (fst j))"
    if d: "lookup t1 k = Some Dir" for k
  proof (cases "lookup t k")
    case (Some n)
    from grown_keeps [OF g this] d Some have "lookup t k = Some Dir" by simp
    with inv show ?thesis unfolding staging_inv_def by blast
  next
    case None
    from grown_new [OF g None d] j(1) show ?thesis by blast
  qed
  from 1 2 3 4 show ?thesis unfolding staging_inv_def by blast
qed

lemma asset_copy_target:
  assumes "asset_job cw T D j"
  shows "\<exists>rel. rel \<noteq> [] \<and> ends_with (last rel) ''.xml'' \<and>
           os_path cw (fst (snd j)) = T @ rel \<and>
           copy_target cw t (fst (snd j)) (snd (snd j)) =
             (if lookup t (D @ rel) = Some Dir then D @ rel @ [last rel] else D @ rel)"
proof -
  from assms obtain rel where rel: "rel \<noteq> []" "os_path cw (fst (snd j)) = T @ rel"
    "ends_with (last rel) ''.xml''"
    "os_path cw (snd (snd j)) = D @ rel"
    "os_path cw (joinpath (snd (snd j)) (Path False [name (fst (snd j))])) = D @ rel @ [last rel]"
    unfolding asset_job_def by blast
  then have "copy_target cw t (fst (snd j)) (snd (snd j)) =
      (if lookup t (D @ rel) = Some Dir then D @ rel @ [last rel] else D @ rel)"
    by (simp add: copy_target_def)
  with rel(1,2,3) show ?thesis by blast
qed

lemma inv_copy:
  assumes inc: "\<not> prefix T D" "\<not> prefix D T"
    and j: "asset_job cw T D j"
    and inv: "staging_inv T js t0 t"
    and c: "shutil_copy cw t (fst (snd j)) (snd (snd j)) = (r, t')"
  shows "staging_inv T js t0 t'"
proof (cases r)
  case (Some e)
  with c have "shutil_copy cw t (fst (snd j)) (snd (snd j)) = (Some e, t')" by simp
  from shutil_copy_fail [OF this] inv show ?thesis by simp
next
  case None
  define d where "d = copy_target cw t (fst (snd j)) (snd (snd j))"
  from c None have "shutil_copy cw t (fst (snd j)) (snd (snd j)) = (None, t')" by simp
  from shutil_copy_ok [OF this, folded d_def]
  obtain x where x: "d \<noteq> []" "lookup t d \<noteq> Some Dir" "t' = AList.update d (File x) t"
    by (elim exE conjE)
  from asset_copy_target [OF j, of t, folded d_def] obtain y where "d = D @ y"
    by (metis append.assoc)
  with apart [OF inc] have out: "\<not> prefix T d" by blast
  from inv have w: "wf_fs t" unfolding staging_inv_def by blast
  from wf_shutil_copy [OF w c] have 1: "wf_fs t'" .
  have 2: "lookup t' k = lookup t0 k" if p: "prefix T k" for k
  proof -
    from p out have "k \<noteq> d" by blast
    with x have "lookup t' k = lookup t k" by (simp add: lookup_update)
    with inv p show ?thesis unfolding staging_inv_def by simp
  qed
  have "map fst t' = (if d \<in> set (map fst t) then map fst t else map fst t @ [d])"
    unfolding x(3) using update_keys [of d "File x" t] by (simp add: image_iff)
  with out inv have 3: "filter (prefix T) (map fst t') = filter (prefix T) (map fst t0)"
    unfolding staging_inv_def by simp
  have 4: "lookup t0 k = Some Dir \<or> (\<exists>j\<in>set js. prefix k (fst j))"
    if dk: "lookup t' k = Some Dir" for k
  proof -
    from dk x have "lookup t k = Some Dir" by (auto simp: lookup_update split: if_splits)
    with inv show ?thesis unfolding staging_inv_def by blast
  qed
  from 1 2 3 4 show ?thesis unfolding staging_inv_def by blast
qed

lemma copy_stable_after_copy:
  assumes inc: "\<not> prefix T D" "\<not> prefix D T"
    and w: "wf_fs t"
    and j: "asset_job cw T D j" and k: "asset_job cw T D k"
    and c: "shutil_copy cw t (fst (snd j)) (snd (snd j)) = (r, t')"
    and s: "shutil_copy cw t (fst (snd k)) (snd (snd k)) = (None, t)"
  shows "shutil_copy cw t' (fst (snd k)) (snd (snd k)) = (None, t')"
proof (cases r)
  case (Some e)
  with c have "shutil_copy cw t (fst (snd j)) (snd (snd j)) = (Some e, t')" by simp
  from shutil_copy_fail [OF this] s show ?thesis by simp
next
  case None
  define dj where "dj = copy_target cw t (fst (snd j)) (snd (snd j))"
  define dk where "dk = copy_target cw t (fst (snd k)) (snd (snd k))"
  define sj where "sj = os_path cw (fst (snd j))"
  define sk where "sk = os_path cw (fst (snd k))"
  from c None have "shutil_copy cw t (fst (snd j)) (snd (snd j)) = (None, t')" by simp
  from shutil_copy_ok [OF this, folded dj_def sj_def]
  obtain cj where cj: "lookup t sj = Some (File cj)" "dj \<noteq> []" "lookup t dj \<noteq> Some Dir"
    "t' = AList.update dj (File cj) t"
    by (elim exE conjE)
  from s [unfolded shutil_copy_stable, folded dk_def sk_def]
  obtain ck where ck: "lookup t sk = Some (File ck)" "dk \<noteq> sk" "lookup t dk = Some (File ck)"
    by blast
  from asset_copy_target [OF j, of t, folded dj_def sj_def]
  obtain rj where rj: "rj \<noteq> []" "sj = T @ rj"
    "dj = (if lookup t (D @ rj) = Some Dir then D @ rj @ [last rj] else D @ rj)"
    by blast
  from asset_copy_target [OF k, of t, folded dk_def sk_def]
  obtain rk where rk: "rk \<noteq> []" "sk = T @ rk"
    "dk = (if lookup t (D @ rk) = Some Dir then D @ rk @ [last rk] else D @ rk)"
    by blast
  from asset_copy_target [OF k, of t', folded sk_def] rk(2)
  have tk': "copy_target cw t' (fst (snd k)) (snd (snd k)) =
      (if lookup t' (D @ rk) = Some Dir then D @ rk @ [last rk] else D @ rk)"
    by auto
  from rj(3) obtain y where y: "dj = D @ y" by (metis append.assoc)
  have "sk \<noteq> dj"
  proof
    assume "sk = dj"
    with rk(2) y have "prefix T (D @ y)" by (metis prefixI)
    with inc show False by (rule apart)
  qed
  with cj ck have 1: "lookup t' sk = Some (File ck)" by (simp add: lookup_update)
  have "lookup t' (D @ rk) = Some Dir \<longleftrightarrow> lookup t (D @ rk) = Some Dir"
    using cj by (auto simp: lookup_update)
  with tk' rk(3) have 2: "copy_target cw t' (fst (snd k)) (snd (snd k)) = dk" by simp
  have 3: "lookup t' dk = Some (File ck)"
  proof (cases "dk = dj")
    case False
    with cj ck show ?thesis by (simp add: lookup_update)
  next
    case True
    have "cj = ck"
    proof (cases "rj = rk")
      case True
      with rj(2) rk(2) cj(1) ck(1) show ?thesis by simp
    next
      case False
      with True rj(3) rk(3) consider "rk = rj @ [last rj]" "lookup t (D @ rj) = Some Dir"
        | "rj = rk @ [last rk]" "lookup t (D @ rk) = Some Dir"
        by (auto split: if_splits)
      then show ?thesis
      proof cases
        case 1
        with rk(2) rj(2) have "butlast sk = sj" by (simp add: butlast_append)
        with wf_parent [OF w, of sk] ck(1) cj(1) show ?thesis by simp
      next
        case 2
        with rk(2) rj(2) have "butlast sj = sk" by (simp add: butlast_append)
        with wf_parent [OF w, of sj] ck(1) cj(1) show ?thesis by simp
      qed
    qed
    with True cj show ?thesis by (simp add: lookup_update)
  qed
  from 1 2 3 ck(2) show ?thesis unfolding shutil_copy_stable sk_def [symmetric] by simp
qed

text \<open>A job that the asset loop cannot disturb: none of its locations has a name that
  matches \<^verbatim>\<open>*.xml\<close>.\<close>

definition foreign_job :: "fpath \<Rightarrow> job \<Rightarrow> bool" where
  "foreign_job cw k =
     (\<not> ends_with (last (os_path cw (fst (snd k)))) ''.xml'' \<and>
      \<not> ends_with (last (os_path cw (snd (snd k)))) ''.xml'' \<and>
      \<not> ends_with (last (os_path cw (joinpath (snd (snd k))
                                      (Path False [name (fst (snd k))])))) ''.xml'')"

lemma foreign_stable_after_copy:
  assumes j: "asset_job cw T D j" and k: "foreign_job cw k"
    and c: "shutil_copy cw t (fst (snd j)) (snd (snd j)) = (r, t')"
    and s: "shutil_copy cw t (fst (snd k)) (snd (snd k)) = (None, t)"
  shows "shutil_copy cw t' (fst (snd k)) (snd (snd k)) = (None, t')"
proof (cases r)
  case (Some e)
  with c have "shutil_copy cw t (fst (snd j)) (snd (snd j)) = (Some e, t')" by simp
  from shutil_copy_fail [OF this] s show ?thesis by simp
next
  case None
  define dj where "dj = copy_target cw t (fst (snd j)) (snd (snd j))"
  define dk where "dk = copy_target cw t (fst (snd k)) (snd (snd k))"
  define sk where "sk = os_path cw (fst (snd k))"
  from c None have "shutil_copy cw t (fst (snd j)) (snd (snd j)) = (None, t')" by simp
  from shutil_copy_ok [OF this, folded dj_def]
  obtain cj where cj: "dj \<noteq> []" "lookup t dj \<noteq> Some Dir" "t' = AList.update dj (File cj) t"
    by (elim exE conjE)
  from s [unfolded shutil_copy_stable, folded dk_def sk_def]
  obtain ck where ck: "lookup t sk = Some (File ck)" "dk \<noteq> sk" "lookup t dk = Some (File ck)"
    by blast
  from asset_copy_target [OF j, of t, folded dj_def]
  obtain rj where rj: "rj \<noteq> []" "ends_with (last rj) ''.xml''"
    "dj = (if lookup t (D @ rj) = Some Dir then D @ rj @ [last rj] else D @ rj)"
    by blast
  from rj have xj: "ends_with (last dj) ''.xml''" by simp
  from k xj have n1: "sk \<noteq> dj" unfolding foreign_job_def sk_def by auto
  have "dk = os_path cw (snd (snd k)) \<or>
      dk = os_path cw (joinpath (snd (snd k)) (Path False [name (fst (snd k))]))"
    unfolding dk_def copy_target_def by simp
  with k xj have n2: "dk \<noteq> dj" unfolding foreign_job_def by auto
  from n1 cj ck have 1: "lookup t' sk = Some (File ck)" by (simp add: lookup_update)
  have "lookup t' (os_path cw (snd (snd k))) = Some Dir \<longleftrightarrow>
      lookup t (os_path cw (snd (snd k))) = Some Dir"
    using cj by (auto simp: lookup_update)
  then have 2: "copy_target cw t' (fst (snd k)) (snd (snd k)) = dk"
    unfolding dk_def copy_target_def by simp
  from n2 cj ck have 3: "lookup t' dk = Some (File ck)" by (simp add: lookup_update)
  from 1 2 3 ck(2) show ?thesis unfolding shutil_copy_stable sk_def [symmetric] by simp
qed

lemma asset_step:
  assumes inc: "\<not> prefix T D" "\<not> prefix D T"
    and jobs: "\<forall>j\<in>set js. asset_job cw T D j"
    and F: "\<forall>k\<in>F. foreign_job cw k"
    and j: "j \<in> set js"
    and inv: "staging_inv T js t0 t"
    and run: "stage_job cw j t = (r, t')"
  shows "staging_inv T js t0 t' \<and>
     (\<forall>k\<in>set js \<union> F. stage_job cw k t = (None, t) \<longrightarrow> stage_job cw k t' = (None, t'))"
proof -
  from jobs j have aj: "asset_job cw T D j" by blast
  obtain r1 t1 where m: "mkdir_parents t (fst j) = (r1, t1)" by (cases "mkdir_parents t (fst j)")
  note g = mkdir_parents_grown [OF m]
  from inv_mkdir [OF inc j aj inv m] have i1: "staging_inv T js t0 t1" .
  have s1: "stage_job cw k t1 = (None, t1)" if "stage_job cw k t = (None, t)" for k
    using that g by (rule job_stable_grown)
  show ?thesis
  proof (cases r1)
    case (Some e)
    with m run have "t' = t1" by (simp add: stage_job_def stage_file_def)
    with i1 s1 show ?thesis by blast
  next
    case None
    with m run have c: "shutil_copy cw t1 (fst (snd j)) (snd (snd j)) = (r, t')"
      by (simp add: stage_job_def stage_file_def)
    from inv_copy [OF inc aj i1 c] have i2: "staging_inv T js t0 t'" .
    from i1 have w1: "wf_fs t1" unfolding staging_inv_def by blast
    have "stage_job cw k t' = (None, t')"
      if k: "k \<in> set js \<union> F" "stage_job cw k t = (None, t)" for k
    proof -
      from s1 [OF k(2)] have mk: "mkdir_parents t1 (fst k) = (None, t1)"
        and ck: "shutil_copy cw t1 (fst (snd k)) (snd (snd k)) = (None, t1)"
        unfolding stage_job_def stage_file_stable by blast+
      have "shutil_copy cw t' (fst (snd k)) (snd (snd k)) = (None, t')"
      proof (cases "k \<in> set js")
        case True
        with jobs have ak: "asset_job cw T D k" by blast
        from copy_stable_after_copy [OF inc w1 aj ak c ck] show ?thesis .
      next
        case False
        with k(1) F have "foreign_job cw k" by blast
        from foreign_stable_after_copy [OF aj this c ck] show ?thesis .
      qed
      with mkdir_stable_after_copy [OF mk c]
      show ?thesis unfolding stage_job_def stage_file_stable by blast
    qed
    with i2 show ?thesis by blast
  qed
qed

lemma asset_stage_all:
  assumes inc: "\<not> prefix T D" "\<not> prefix D T"
    and jobs: "\<forall>j\<in>set js. asset_job cw T D j"
    and w: "wf_fs t0"
    and run: "stage_all cw js t0 = (r, t1)"
    and F: "\<forall>k\<in>F. foreign_job cw k \<and> stage_job cw k t0 = (None, t0)"
  shows "stage_all cw js t1 = (r, t1) \<and> staging_inv T js t0 t1 \<and>
     (\<forall>k\<in>F. stage_job cw k t1 = (None, t1)) \<and>
     (r = None \<longrightarrow> (\<forall>k\<in>set js. stage_job cw k t1 = (None, t1)))"
proof -
  from w have i0: "staging_inv T js t0 t0" unfolding staging_inv_def by simp
  from F have f1: "\<forall>k\<in>F. foreign_job cw k" and f2: "\<forall>k\<in>F. stage_job cw k t0 = (None, t0)"
    by blast+
  have step: "\<forall>j\<in>set js. \<forall>t r t'. staging_inv T js t0 t \<longrightarrow> stage_job cw j t = (r, t') \<longrightarrow>
      staging_inv T js t0 t' \<and>
      (\<forall>k\<in>set js \<union> F. stage_job cw k t = (None, t) \<longrightarrow> stage_job cw k t' = (None, t'))"
    using asset_step [OF inc jobs f1] by blast
  from stage_all_idem [of js "staging_inv T js t0" cw F t0 r t1, OF step i0 run f2]
  show ?thesis .
qed

subsection \<open>The asset step as a loop of jobs\<close>

definition job_of :: "world \<Rightarrow> path \<Rightarrow> path \<times> path \<Rightarrow> job" where
  "job_of w dir sp = (os_path (cwd w) (parent (joinpath dir (snd sp))), fst sp, joinpath dir (snd sp))"

lemma seq_assets:
  "fst (seq (concat (map (copy_asset w dir) ps)) s) =
     fst (stage_all (cwd w) (map (job_of w dir) ps) (files s)) \<and>
   files (snd (seq (concat (map (copy_asset w dir) ps)) s)) =
     snd (stage_all (cwd w) (map (job_of w dir) ps) (files s))"
proof (induction ps arbitrary: s)
  case Nil
  show ?case by simp
next
  case (Cons sp ps)
  let ?mk = "do_mkdir w (parent (joinpath dir (snd sp)))"
  let ?cp = "do_copy w (fst sp) (joinpath dir (snd sp))"
  let ?rest = "concat (map (copy_asset w dir) ps)"
  obtain r1 s1 where a: "seq [?mk, ?cp] s = (r1, s1)" by (cases "seq [?mk, ?cp] s")
  from seq_mkdir_copy [of w "parent (joinpath dir (snd sp))" "fst sp" "joinpath dir (snd sp)" s] a
  have b: "stage_job (cwd w) (job_of w dir sp) (files s) = (r1, files s1)"
    by (simp add: stage_job_def job_of_def prod_eq_iff)
  have c: "seq (concat (map (copy_asset w dir) (sp # ps))) s =
      (case seq [?mk, ?cp] s of (Some e, s') \<Rightarrow> (Some e, s') | (None, s') \<Rightarrow> seq ?rest s')"
    by (simp add: copy_asset_def Let_def split: prod.splits option.splits)
  show ?case
  proof (cases r1)
    case (Some e)
    with a b c show ?thesis by simp
  next
    case None
    with a b c Cons.IH [of s1] show ?thesis by simp
  qed
qed

lemma relative_to_join: "relative_to (joinpath base (Path False r)) base = Inr (Path False r)"
  by (simp add: relative_to_def joinpath_def)

lemma relative_all_join:
  "relative_all (map (\<lambda>x. joinpath base (Path False (f x))) xs) base =
     Inr (map (\<lambda>x. Path False (f x)) xs)"
  by (induction xs) (simp_all add: relative_to_join)

definition asset_keys :: "world \<Rightarrow> fs \<Rightarrow> fpath list" where
  "asset_keys w t =
     (if lookup t (os_path (cwd w) (mjpc_tasks_path w)) \<noteq> Some Dir then []
      else filter (\<lambda>k. strict_prefix (os_path (cwd w) (mjpc_tasks_path w)) k \<and>
                       ends_with (last k) ''.xml'') (map fst t))"

definition asset_pair :: "world \<Rightarrow> fpath \<Rightarrow> path \<times> path" where
  "asset_pair w k =
     (joinpath (mjpc_tasks_path w)
        (Path False (drop (length (os_path (cwd w) (mjpc_tasks_path w))) k)),
      Path False (drop (length (os_path (cwd w) (mjpc_tasks_path w))) k))"

definition asset_dir :: "world \<Rightarrow> path \<Rightarrow> path" where
  "asset_dir w bl = joinpath (resolve (cwd w) bl) (Path False [''mujoco_mpc'', ''mjpc'', ''tasks''])"

definition asset_jobs :: "world \<Rightarrow> path \<Rightarrow> fs \<Rightarrow> job list" where
  "asset_jobs w bl t = map (job_of w (asset_dir w bl)) (map (asset_pair w) (asset_keys w t))"

lemma rglob_keys:
  "rglob_xml (cwd w) t (mjpc_tasks_path w) = map (\<lambda>k. fst (asset_pair w k)) (asset_keys w t)"
  by (simp add: rglob_xml_def asset_keys_def asset_pair_def Let_def)

lemma zip_same: "zip (map f xs) (map g xs) = map (\<lambda>x. (f x, g x)) xs"
  by (induction xs) simp_all

lemma assets_run_fs:
  "fst (CopyTaskAssetsCommand_run w (Some bl) s) =
     fst (stage_all (cwd w) (asset_jobs w bl (files s)) (files s)) \<and>
   files (snd (CopyTaskAssetsCommand_run w (Some bl) s)) =
     snd (stage_all (cwd w) (asset_jobs w bl (files s)) (files s))"
proof -
  let ?ks = "asset_keys w (files s)"
  have r: "relative_all (rglob_xml (cwd w) (files s) (mjpc_tasks_path w)) (mjpc_tasks_path w) =
      Inr (map (\<lambda>k. snd (asset_pair w k)) ?ks)"
    unfolding rglob_keys using relative_all_join [of "mjpc_tasks_path w" _ ?ks]
    by (simp add: asset_pair_def)
  have z: "zip (map (\<lambda>k. fst (asset_pair w k)) ?ks) (map (\<lambda>k. snd (asset_pair w k)) ?ks) =
      map (asset_pair w) ?ks"
    by (simp add: zip_same)
  have "CopyTaskAssetsCommand_run w (Some bl) s =
      seq (concat (map (copy_asset w (asset_dir w bl)) (map (asset_pair w) ?ks))) s"
    unfolding CopyTaskAssetsCommand_run_def Let_def r
    by (simp add: rglob_keys z asset_dir_def)
  with seq_assets [of w "asset_dir w bl" "map (asset_pair w) ?ks" s] show ?thesis
    by (simp add: asset_jobs_def)
qed

definition tasks_loc :: "world \<Rightarrow> fpath" where
  "tasks_loc w = os_path (cwd w) (mjpc_tasks_path w)"

definition staged_tasks_loc :: "world \<Rightarrow> path \<Rightarrow> fpath" where
  "staged_tasks_loc w bl = os_path (cwd w) bl @ [''mujoco_mpc'', ''mjpc'', ''tasks'']"

lemma asset_dir_loc: "os_path (cwd w) (asset_dir w bl) = staged_tasks_loc w bl"
  by (simp add: asset_dir_def staged_tasks_loc_def os_path_join_plain)

lemma asset_key_facts:
  assumes "wf_fs t" and "k \<in> set (asset_keys w t)"
  shows "\<exists>rel. rel \<noteq> [] \<and> k = tasks_loc w @ rel \<and> ''..'' \<notin> set rel \<and>
           ends_with (last rel) ''.xml'' \<and>
           lookup t k \<noteq> None \<and> asset_pair w k = (joinpath (mjpc_tasks_path w) (Path False rel), Path False rel)"
proof -
  from assms(2) have s: "strict_prefix (tasks_loc w) k" and m: "k \<in> set (map fst t)"
    and x: "ends_with (last k) ''.xml''"
    by (auto simp: asset_keys_def tasks_loc_def split: if_splits)
  from s obtain rel where rel: "k = tasks_loc w @ rel" "rel \<noteq> []"
    by (auto simp: strict_prefix_def prefix_def)
  from m assms(1) have "''..'' \<notin> set k" unfolding wf_fs_def by blast
  with rel have nd: "''..'' \<notin> set rel" by simp
  from rel(1) have "asset_pair w k = (joinpath (mjpc_tasks_path w) (Path False rel), Path False rel)"
    by (simp add: asset_pair_def tasks_loc_def)
  moreover from rel x have "ends_with (last rel) ''.xml''" by simp
  ultimately show ?thesis using rel nd key_lookup [OF m] by blast
qed

lemma job_of_asset:
  assumes "rel \<noteq> []" and "''..'' \<notin> set rel"
  shows "job_of w (asset_dir w bl) (joinpath (mjpc_tasks_path w) (Path False rel), Path False rel) =
      (staged_tasks_loc w bl @ butlast rel,
       joinpath (mjpc_tasks_path w) (Path False rel),
       joinpath (asset_dir w bl) (Path False rel))"
  using assms by (simp add: job_of_def os_path_parent_join asset_dir_loc)

lemma asset_job_of:
  assumes "rel \<noteq> []" and "''..'' \<notin> set rel" and "ends_with (last rel) ''.xml''"
  shows "asset_job (cwd w) (tasks_loc w) (staged_tasks_loc w bl)
      (staged_tasks_loc w bl @ butlast rel,
       joinpath (mjpc_tasks_path w) (Path False rel),
       joinpath (asset_dir w bl) (Path False rel))"
proof -
  have 1: "''..'' \<notin> set (staged_tasks_loc w bl @ rel)"
    using assms(2) os_path_no_dotdot [of "cwd w" bl] by (simp add: staged_tasks_loc_def)
  have 2: "os_path (cwd w) (joinpath (mjpc_tasks_path w) (Path False rel)) = tasks_loc w @ rel"
    using assms(2) by (simp add: os_path_join_plain tasks_loc_def)
  have 3: "os_path (cwd w) (joinpath (asset_dir w bl) (Path False rel)) =
      staged_tasks_loc w bl @ rel"
    using assms(2) by (simp add: os_path_join_plain asset_dir_loc)
  have n: "name (joinpath (mjpc_tasks_path w) (Path False rel)) = last rel"
    using assms(1) by (simp add: name_def joinpath_def)
  have j: "joinpath (joinpath (asset_dir w bl) (Path False rel)) (Path False [last rel]) =
      joinpath (asset_dir w bl) (Path False (rel @ [last rel]))"
    by (simp add: joinpath_def)
  from assms have "''..'' \<notin> set (rel @ [last rel])" by auto
  then have 4: "os_path (cwd w)
      (joinpath (joinpath (asset_dir w bl) (Path False rel))
         (Path False [name (joinpath (mjpc_tasks_path w) (Path False rel))])) =
      staged_tasks_loc w bl @ rel @ [last rel]"
    unfolding n j by (simp add: os_path_join_plain asset_dir_loc)
  from assms(1,3) 1 2 3 4 show ?thesis
    unfolding asset_job_def by (intro exI [of _ rel]) simp
qed

lemma asset_jobs_ok:
  assumes "wf_fs t"
  shows "\<forall>j\<in>set (asset_jobs w bl t). asset_job (cwd w) (tasks_loc w) (staged_tasks_loc w bl) j"
proof
  fix j assume "j \<in> set (asset_jobs w bl t)"
  then obtain k where k: "k \<in> set (asset_keys w t)"
    "j = job_of w (asset_dir w bl) (asset_pair w k)"
    by (auto simp: asset_jobs_def)
  from asset_key_facts [OF assms k(1)] obtain rel where rel: "rel \<noteq> []" "''..'' \<notin> set rel"
    "asset_pair w k = (joinpath (mjpc_tasks_path w) (Path False rel), Path False rel)"
    "ends_with (last rel) ''.xml''"
    by blast
  from k(2) rel(3) job_of_asset [OF rel(1,2)] asset_job_of [OF rel(1,2,4)]
  show "asset_job (cwd w) (tasks_loc w) (staged_tasks_loc w bl) j" by simp
qed





definition asset_events :: "world \<Rightarrow> path \<Rightarrow> path \<times> path \<Rightarrow> event list" where
  "asset_events w dir sp =
     [Mkdir (os_path (cwd w) (parent (joinpath dir (snd sp)))),
      Copy (os_path (cwd w) (fst sp)) (os_path (cwd w) (joinpath dir (snd sp)))]"

lemma seq_assets_trace:
  "seq (concat (map (copy_asset w dir) ps)) s = (None, s') \<Longrightarrow>
   trace s' = trace s @ concat (map (asset_events w dir) ps)"
proof (induction ps arbitrary: s)
  case Nil
  then show ?case by simp
next
  case (Cons sp ps)
  let ?mk = "do_mkdir w (parent (joinpath dir (snd sp)))"
  let ?cp = "do_copy w (fst sp) (joinpath dir (snd sp))"
  obtain r1 s1 where a: "?mk s = (r1, s1)" by (cases "?mk s")
  obtain r2 s2 where b: "?cp s1 = (r2, s2)" by (cases "?cp s1")
  from a have t1: "trace s1 = trace s @ [Mkdir (os_path (cwd w) (parent (joinpath dir (snd sp))))]"
    by (auto simp: do_mkdir_def Let_def split: prod.splits)
  from b have t2: "trace s2 = trace s1 @
      [Copy (os_path (cwd w) (fst sp)) (os_path (cwd w) (joinpath dir (snd sp)))]"
    by (auto simp: do_copy_def Let_def split: prod.splits)
  have hd: "concat (map (copy_asset w dir) (sp # ps)) =
      ?mk # ?cp # concat (map (copy_asset w dir) ps)"
    by (simp add: copy_asset_def Let_def)
  from Cons.prems [unfolded hd] a b have "r1 = None \<and> r2 = None \<and>
      seq (concat (map (copy_asset w dir) ps)) s2 = (None, s')"
    by (auto split: option.splits)
  with Cons.IH [of s2] t1 t2 show ?case by (simp add: asset_events_def)
qed

lemma assets_content:
  assumes w: "wf_fs (files s)"
    and inc: "\<not> prefix (tasks_loc w) (staged_tasks_loc w bl)"
      "\<not> prefix (staged_tasks_loc w bl) (tasks_loc w)"
    and run: "CopyTaskAssetsCommand_run w (Some bl) s = (None, s')"
    and k: "k \<in> set (asset_keys w (files s))"
    and f: "lookup (files s) k = Some (File c)"
    and nd: "lookup (files s) (staged_tasks_loc w bl @ drop (length (tasks_loc w)) k) \<noteq> Some Dir"
  shows "lookup (files s') (staged_tasks_loc w bl @ drop (length (tasks_loc w)) k) = Some (File c)"
proof -
  define js where "js = asset_jobs w bl (files s)"
  define T where "T = tasks_loc w"
  define D where "D = staged_tasks_loc w bl"
  from assets_run_fs [of w bl s] run
  have st: "stage_all (cwd w) js (files s) = (None, files s')"
    by (simp add: js_def prod_eq_iff)
  from asset_stage_all [OF inc asset_jobs_ok [OF w, of w bl, folded js_def] w st, of "{}"]
  have v: "staging_inv T js (files s) (files s')"
    and stable: "\<forall>j\<in>set js. stage_job (cwd w) j (files s') = (None, files s')"
    by (simp_all add: T_def)
  from asset_key_facts [OF w k] obtain rel where rel: "rel \<noteq> []" "k = T @ rel"
    "''..'' \<notin> set rel"
    "asset_pair w k = (joinpath (mjpc_tasks_path w) (Path False rel), Path False rel)"
    "ends_with (last rel) ''.xml''"
    unfolding T_def by blast
  define j where "j = (D @ butlast rel, joinpath (mjpc_tasks_path w) (Path False rel),
      joinpath (asset_dir w bl) (Path False rel))"
  from k rel(4) job_of_asset [OF rel(1,3), of w bl] have jin: "j \<in> set js"
    by (force simp: js_def asset_jobs_def j_def D_def)
  from asset_job_of [OF rel(1,3,5), of w bl] have aj: "asset_job (cwd w) T D j"
    by (simp add: j_def T_def D_def)
  from stable jin have "shutil_copy (cwd w) (files s') (fst (snd j)) (snd (snd j)) =
      (None, files s')"
    unfolding stage_job_def stage_file_stable by blast
  then obtain c' where c': "lookup (files s') (os_path (cwd w) (fst (snd j))) = Some (File c')"
    "lookup (files s') (copy_target (cwd w) (files s') (fst (snd j)) (snd (snd j))) =
       Some (File c')"
    unfolding shutil_copy_stable by blast
  have src: "os_path (cwd w) (fst (snd j)) = k"
    using rel(2,3) by (simp add: j_def os_path_join_plain T_def tasks_loc_def)
  from v rel(2) have "lookup (files s') k = lookup (files s) k"
    unfolding staging_inv_def by simp
  with c'(1) src f have cc: "c' = c" by simp
  from asset_copy_target [OF aj, of "files s'"] src rel(2)
  have tgt: "copy_target (cwd w) (files s') (fst (snd j)) (snd (snd j)) =
      (if lookup (files s') (D @ rel) = Some Dir then D @ rel @ [last rel] else D @ rel)"
    by auto
  have "lookup (files s') (D @ rel) \<noteq> Some Dir"
  proof
    assume d: "lookup (files s') (D @ rel) = Some Dir"
    from nd rel(2) have "lookup (files s) (D @ rel) \<noteq> Some Dir" by (simp add: D_def T_def)
    with v d obtain j' where j': "j' \<in> set js" "prefix (D @ rel) (fst j')"
      unfolding staging_inv_def by blast
    from j'(1) obtain k' where k': "k' \<in> set (asset_keys w (files s))"
      "j' = job_of w (asset_dir w bl) (asset_pair w k')"
      by (auto simp: js_def asset_jobs_def)
    from asset_key_facts [OF w k'(1)] obtain rel' where rel': "rel' \<noteq> []" "k' = T @ rel'"
      "''..'' \<notin> set rel'" "lookup (files s) k' \<noteq> None"
      "asset_pair w k' = (joinpath (mjpc_tasks_path w) (Path False rel'), Path False rel')"
      unfolding T_def by blast
    from k'(2) rel'(5) job_of_asset [OF rel'(1,3), of w bl] have "fst j' = D @ butlast rel'"
      by (simp add: D_def)
    with j'(2) have "prefix rel (butlast rel')" by simp
    then obtain z where "butlast rel' = rel @ z" by (auto simp: prefix_def)
    with rel'(1) have "rel' = rel @ (z @ [last rel'])"
      by (metis append_butlast_last_id append_assoc)
    then have "strict_prefix rel rel'" by (metis append_is_Nil_conv not_Cons_self2
          prefixI self_append_conv strict_prefix_def)
    with rel(2) rel'(2) have "strict_prefix k k'" by (simp add: strict_prefix_def)
    from wf_ancestor [OF w rel'(4) this] f show False by simp
  qed
  with tgt c'(2) cc rel(2) show ?thesis by (simp add: D_def T_def)
qed

subsection \<open>Where the interface file is and where it goes\<close>

lemma proto_raw_loc:
  "os_path cw (Path False [''..'', ''grpc'', ''agent.proto'']) =
     normalise (cw @ [''..'']) @ [''grpc'', ''agent.proto'']"
proof -
  have "normalise (cw @ [''..'', ''grpc'', ''agent.proto'']) =
      normalise ((cw @ [''..'']) @ [''grpc'', ''agent.proto''])"
    by simp
  also have "\<dots> = normalise (cw @ [''..'']) @ [''grpc'', ''agent.proto'']"
    by (rule normalise_append_plain) simp
  finally show ?thesis by (simp add: os_path_def)
qed

lemma proto_dest_loc:
  "os_path (cwd w) (agent_proto_destination_path w bl) =
     os_path (cwd w) bl @ [''mujoco_mpc'', ''proto'', ''agent.proto'']"
  by (simp add: agent_proto_destination_path_def proto_module_relative_path_def
      agent_proto_filename_def os_path_join_plain)

lemma proto_parent_loc:
  "os_path (cwd w) (parent (agent_proto_destination_path w bl)) =
     os_path (cwd w) bl @ [''mujoco_mpc'', ''proto'']"
  by (simp add: agent_proto_destination_path_def proto_module_relative_path_def
      agent_proto_filename_def os_path_parent_join)

lemma proto_source_raw:
  "os_path (cwd w) (agent_proto_source_path w) =
     os_path (cwd w) (Path False [''..'', ''grpc'', ''agent.proto''])"
  by (simp add: agent_proto_source_path_def agent_proto_filename_def)

subsection \<open>What the asset step leaves\<close>

text \<open>The path of a listed source relative to the asset directory, part by part.\<close>

definition rel_of :: "world \<Rightarrow> path \<Rightarrow> string list" where
  "rel_of w p = drop (length (parts (mjpc_tasks_path w))) (parts p)"

lemma asset_source_facts:
  assumes "wf_fs t" and "k \<in> set (asset_keys w t)"
  shows "rel_of w (fst (asset_pair w k)) = drop (length (tasks_loc w)) k \<and>
         os_path (cwd w) (fst (asset_pair w k)) = k \<and>
         relative_to (fst (asset_pair w k)) (mjpc_tasks_path w) =
           Inr (Path False (rel_of w (fst (asset_pair w k)))) \<and>
         asset_events w (asset_dir w bl) (asset_pair w k) =
           [Mkdir (staged_tasks_loc w bl @ butlast (rel_of w (fst (asset_pair w k)))),
            Copy (os_path (cwd w) (fst (asset_pair w k)))
              (staged_tasks_loc w bl @ rel_of w (fst (asset_pair w k)))]"
proof -
  from asset_key_facts [OF assms] obtain rel where rel: "rel \<noteq> []" "k = tasks_loc w @ rel"
    "''..'' \<notin> set rel"
    "asset_pair w k = (joinpath (mjpc_tasks_path w) (Path False rel), Path False rel)"
    by blast
  have 1: "rel_of w (fst (asset_pair w k)) = rel"
    by (simp add: rel(4) rel_of_def joinpath_def)
  from rel(2) have 2: "drop (length (tasks_loc w)) k = rel" by simp
  have p: "fst (asset_pair w k) = joinpath (mjpc_tasks_path w) (Path False rel)"
    by (simp add: rel(4))
  from rel(3) have "os_path (cwd w) (joinpath (mjpc_tasks_path w) (Path False rel)) =
      tasks_loc w @ rel"
    by (simp add: os_path_join_plain tasks_loc_def)
  with p rel(2) have 3: "os_path (cwd w) (fst (asset_pair w k)) = k" by metis
  have 4: "relative_to (fst (asset_pair w k)) (mjpc_tasks_path w) = Inr (Path False rel)"
    by (simp add: rel(4) relative_to_join)
  from rel(1,3) have 5: "asset_events w (asset_dir w bl) (asset_pair w k) =
      [Mkdir (staged_tasks_loc w bl @ butlast rel), Copy k (staged_tasks_loc w bl @ rel)]"
    using 3 [unfolded p] unfolding asset_events_def rel(4)
    by (simp add: os_path_parent_join os_path_join_plain asset_dir_loc del: os_path_resolve)
  from 1 2 3 4 5 show ?thesis by simp
qed

lemma example_wf: "wf_fs (files example_state)"
  by code_simp

lemma example_apart:
  "\<not> prefix (tasks_loc example_world) (staged_tasks_loc example_world (Path False [''build'', ''lib'']))"
  "\<not> prefix (staged_tasks_loc example_world (Path False [''build'', ''lib''])) (tasks_loc example_world)"
  by code_simp+

text \<open>
  Claim C5, as stated: every listed file is copied to the staged asset directory followed by
  its relative path, so that after staging each destination file's content equals its
  source's content. Where a directory already stands at a destination, \<^verbatim>\<open>shutil.copy\<close>
  puts the file inside that directory: the run ends without an error, the destination is
  still a directory, and the content of the source is one level below it.
\<close>

theorem asset_lands_inside_directory:
  "wf_fs (files occupied_state) \<and>
   \<not> prefix (tasks_loc example_world) (staged_tasks_loc example_world (Path False [''build'', ''lib''])) \<and>
   \<not> prefix (staged_tasks_loc example_world (Path False [''build'', ''lib''])) (tasks_loc example_world) \<and>
   fst (CopyTaskAssetsCommand_run example_world (Some (Path False [''build'', ''lib''])) occupied_state) = None \<and>
   Path True [''r'', ''mjpc'', ''tasks'', ''common.xml''] \<in>
     set (rglob_xml (cwd example_world) (files occupied_state) (mjpc_tasks_path example_world)) \<and>
   staged_tasks_loc example_world (Path False [''build'', ''lib'']) @
     rel_of example_world (Path True [''r'', ''mjpc'', ''tasks'', ''common.xml'']) =
     [''r'', ''python'', ''build'', ''lib'', ''mujoco_mpc'', ''mjpc'', ''tasks'', ''common.xml''] \<and>
   lookup (files occupied_state) [''r'', ''mjpc'', ''tasks'', ''common.xml''] = Some (File ''<common/>'') \<and>
   lookup (files (snd (CopyTaskAssetsCommand_run example_world (Some (Path False [''build'', ''lib'']))
                         occupied_state)))
     [''r'', ''python'', ''build'', ''lib'', ''mujoco_mpc'', ''mjpc'', ''tasks'', ''common.xml''] = Some Dir \<and>
   lookup (files (snd (CopyTaskAssetsCommand_run example_world (Some (Path False [''build'', ''lib'']))
                         occupied_state)))
     [''r'', ''python'', ''build'', ''lib'', ''mujoco_mpc'', ''mjpc'', ''tasks'', ''common.xml'',
      ''common.xml''] = Some (File ''<common/>'')"
  by code_simp

text \<open>
  Claim C5, amended: every entry that the enumeration of the asset tree lists is copied to the
  staged asset directory (\<^verbatim>\<open>mujoco_mpc/mjpc/tasks\<close> under the staging root) followed by its
  path relative to the asset directory, and the parent directories of that destination are
  made just before the copy. After a run that ended without an error, on a well-formed tree
  with the staged and the source asset directories apart, the destination of every listed
  file holds the content of its source, provided no directory stood at the destination.
\<close>

theorem assets_staged:
  assumes "wf_fs (files s)"
    and "\<not> prefix (tasks_loc w) (staged_tasks_loc w bl)"
    and "\<not> prefix (staged_tasks_loc w bl) (tasks_loc w)"
    and "CopyTaskAssetsCommand_run w (Some bl) s = (None, s')"
  shows "new_events s s' =
           concat (map (\<lambda>p. [Mkdir (staged_tasks_loc w bl @ butlast (rel_of w p)),
                              Copy (os_path (cwd w) p) (staged_tasks_loc w bl @ rel_of w p)])
                     (rglob_xml (cwd w) (files s) (mjpc_tasks_path w))) \<and>
         (\<forall>p\<in>set (rglob_xml (cwd w) (files s) (mjpc_tasks_path w)).
            relative_to p (mjpc_tasks_path w) = Inr (Path False (rel_of w p)) \<and>
            (\<forall>c. lookup (files s) (os_path (cwd w) p) = Some (File c) \<and>
                 lookup (files s) (staged_tasks_loc w bl @ rel_of w p) \<noteq> Some Dir \<longrightarrow>
                 lookup (files s') (staged_tasks_loc w bl @ rel_of w p) = Some (File c)))"
proof
  let ?ks = "asset_keys w (files s)"
  have r: "relative_all (rglob_xml (cwd w) (files s) (mjpc_tasks_path w)) (mjpc_tasks_path w) =
      Inr (map (\<lambda>k. snd (asset_pair w k)) ?ks)"
    unfolding rglob_keys using relative_all_join [of "mjpc_tasks_path w" _ ?ks]
    by (simp add: asset_pair_def)
  have z: "zip (map (\<lambda>k. fst (asset_pair w k)) ?ks) (map (\<lambda>k. snd (asset_pair w k)) ?ks) =
      map (asset_pair w) ?ks"
    by (simp add: zip_same)
  have e: "CopyTaskAssetsCommand_run w (Some bl) s =
      seq (concat (map (copy_asset w (asset_dir w bl)) (map (asset_pair w) ?ks))) s"
    unfolding CopyTaskAssetsCommand_run_def Let_def r
    by (simp add: rglob_keys z asset_dir_def)
  from assms(4) [unfolded e] have t: "trace s' = trace s @
      concat (map (asset_events w (asset_dir w bl)) (map (asset_pair w) ?ks))"
    by (rule seq_assets_trace)
  have m: "map (asset_events w (asset_dir w bl)) (map (asset_pair w) ?ks) =
      map (\<lambda>p. [Mkdir (staged_tasks_loc w bl @ butlast (rel_of w p)),
                 Copy (os_path (cwd w) p) (staged_tasks_loc w bl @ rel_of w p)])
        (map (\<lambda>k. fst (asset_pair w k)) ?ks)"
    unfolding map_map comp_def
    by (rule map_cong [OF refl]) (use asset_source_facts [OF assms(1), of _ w bl] in simp)
  show "new_events s s' =
      concat (map (\<lambda>p. [Mkdir (staged_tasks_loc w bl @ butlast (rel_of w p)),
                         Copy (os_path (cwd w) p) (staged_tasks_loc w bl @ rel_of w p)])
                (rglob_xml (cwd w) (files s) (mjpc_tasks_path w)))"
    unfolding new_events_def rglob_keys t m by simp
next
  show "\<forall>p\<in>set (rglob_xml (cwd w) (files s) (mjpc_tasks_path w)).
      relative_to p (mjpc_tasks_path w) = Inr (Path False (rel_of w p)) \<and>
      (\<forall>c. lookup (files s) (os_path (cwd w) p) = Some (File c) \<and>
           lookup (files s) (staged_tasks_loc w bl @ rel_of w p) \<noteq> Some Dir \<longrightarrow>
           lookup (files s') (staged_tasks_loc w bl @ rel_of w p) = Some (File c))"
  proof
    fix p assume "p \<in> set (rglob_xml (cwd w) (files s) (mjpc_tasks_path w))"
    then obtain k where k: "k \<in> set (asset_keys w (files s))" "p = fst (asset_pair w k)"
      by (auto simp: rglob_keys)
    from asset_source_facts [OF assms(1) k(1), of bl] k(2)
    have f: "rel_of w p = drop (length (tasks_loc w)) k" "os_path (cwd w) p = k"
      "relative_to p (mjpc_tasks_path w) = Inr (Path False (rel_of w p))"
      by simp_all
    have "lookup (files s') (staged_tasks_loc w bl @ rel_of w p) = Some (File c)"
      if "lookup (files s) (os_path (cwd w) p) = Some (File c) \<and>
          lookup (files s) (staged_tasks_loc w bl @ rel_of w p) \<noteq> Some Dir" for c
      using assets_content [OF assms k(1), of c] that f by simp
    with f(3) show "relative_to p (mjpc_tasks_path w) = Inr (Path False (rel_of w p)) \<and>
      (\<forall>c. lookup (files s) (os_path (cwd w) p) = Some (File c) \<and>
           lookup (files s) (staged_tasks_loc w bl @ rel_of w p) \<noteq> Some Dir \<longrightarrow>
           lookup (files s') (staged_tasks_loc w bl @ rel_of w p) = Some (File c))"
      by blast
  qed
qed

theorem assets_staged_witness:
  "wf_fs (files example_state) \<and>
   \<not> prefix (tasks_loc example_world) (staged_tasks_loc example_world (Path False [''build'', ''lib''])) \<and>
   \<not> prefix (staged_tasks_loc example_world (Path False [''build'', ''lib''])) (tasks_loc example_world) \<and>
   fst (CopyTaskAssetsCommand_run example_world (Some (Path False [''build'', ''lib'']))
          example_state) = None \<and>
   Path True [''r'', ''mjpc'', ''tasks'', ''cartpole'', ''task.xml''] \<in>
     set (rglob_xml (cwd example_world) (files example_state) (mjpc_tasks_path example_world)) \<and>
   lookup (files (snd (CopyTaskAssetsCommand_run example_world
                         (Some (Path False [''build'', ''lib''])) example_state)))
     [''r'', ''python'', ''build'', ''lib'', ''mujoco_mpc'', ''mjpc'', ''tasks'', ''cartpole'',
      ''task.xml''] = Some (File ''<mujoco/>'')"
proof -
  let ?bl = "Path False [''build'', ''lib'']"
  let ?p = "Path True [''r'', ''mjpc'', ''tasks'', ''cartpole'', ''task.xml'']"
  define s' where "s' = snd (CopyTaskAssetsCommand_run example_world (Some ?bl) example_state)"
  have ok: "fst (CopyTaskAssetsCommand_run example_world (Some ?bl) example_state) = None"
    by code_simp
  then have r: "CopyTaskAssetsCommand_run example_world (Some ?bl) example_state = (None, s')"
    by (simp add: s'_def prod_eq_iff)
  have p: "?p \<in> set (rglob_xml (cwd example_world) (files example_state)
      (mjpc_tasks_path example_world))"
    by code_simp
  have src: "lookup (files example_state) (os_path (cwd example_world) ?p) =
      Some (File ''<mujoco/>'')"
    by code_simp
  have loc: "staged_tasks_loc example_world ?bl @ rel_of example_world ?p =
      [''r'', ''python'', ''build'', ''lib'', ''mujoco_mpc'', ''mjpc'', ''tasks'', ''cartpole'',
       ''task.xml'']"
    by code_simp
  have nd: "lookup (files example_state)
      (staged_tasks_loc example_world ?bl @ rel_of example_world ?p) \<noteq> Some Dir"
    by code_simp
  from assets_staged [OF example_wf example_apart r] p
  have "\<forall>c. lookup (files example_state) (os_path (cwd example_world) ?p) = Some (File c) \<and>
      lookup (files example_state)
        (staged_tasks_loc example_world ?bl @ rel_of example_world ?p) \<noteq> Some Dir \<longrightarrow>
      lookup (files s') (staged_tasks_loc example_world ?bl @ rel_of example_world ?p) =
        Some (File c)"
    by blast
  with src nd have "lookup (files s')
      (staged_tasks_loc example_world ?bl @ rel_of example_world ?p) = Some (File ''<mujoco/>'')"
    by blast
  with loc ok p example_wf example_apart show ?thesis by (simp add: s'_def)
qed

subsection \<open>The binding generation\<close>

lemma do_mkdir_trace: "trace (snd (do_mkdir w p s)) = trace s @ [Mkdir (os_path (cwd w) p)]"
  by (simp add: do_mkdir_def Let_def split: prod.splits)

lemma do_copy_trace:
  "trace (snd (do_copy w p q s)) = trace s @ [Copy (os_path (cwd w) p) (os_path (cwd w) q)]"
  by (simp add: do_copy_def Let_def split: prod.splits)

lemma spawn_trace: "trace (snd (spawn w argv s)) = trace s @ [Spawn argv]"
  by (simp add: spawn_def Let_def split: prod.splits)

lemma seq4_trace:
  assumes "\<And>s. trace (snd (a s)) = trace s @ [ea]" and "\<And>s. trace (snd (b s)) = trace s @ [eb]"
    and "\<And>s. trace (snd (c s)) = trace s @ [ec]" and "\<And>s. trace (snd (d s)) = trace s @ [ed]"
  shows "prefix (new_events s (snd (seq [a, b, c, d] s))) [ea, eb, ec, ed] \<and>
         (fst (seq [a, b, c, d] s) = None \<longrightarrow>
            new_events s (snd (seq [a, b, c, d] s)) = [ea, eb, ec, ed])"
proof -
  obtain r1 s1 where 1: "a s = (r1, s1)" by (cases "a s")
  obtain r2 s2 where 2: "b s1 = (r2, s2)" by (cases "b s1")
  obtain r3 s3 where 3: "c s2 = (r3, s3)" by (cases "c s2")
  obtain r4 s4 where 4: "d s3 = (r4, s4)" by (cases "d s3")
  from assms(1) [of s] 1 have t1: "trace s1 = trace s @ [ea]" by simp
  from assms(2) [of s1] 2 t1 have t2: "trace s2 = trace s @ [ea, eb]" by simp
  from assms(3) [of s2] 3 t2 have t3: "trace s3 = trace s @ [ea, eb, ec]" by simp
  from assms(4) [of s3] 4 t3 have t4: "trace s4 = trace s @ [ea, eb, ec, ed]" by simp
  show ?thesis
    using 1 2 3 4 t1 t2 t3 t4
    by (cases r1; cases r2; cases r3; cases r4) (simp_all add: new_events_def)
qed

lemma proto_paths:
  "agent_proto_destination_path w bl =
     Path True (os_path (cwd w) bl @ [''mujoco_mpc'', ''proto'', ''agent.proto''])"
  "joinpath (parent (agent_proto_destination_path w bl)) (Path False [''__init__.py'']) =
     Path True (os_path (cwd w) bl @ [''mujoco_mpc'', ''proto'', ''__init__.py''])"
  by (simp_all add: agent_proto_destination_path_def proto_module_relative_path_def
      agent_proto_filename_def joinpath_def resolve_def parent_def butlast_append)

lemma do_mkdir_result:
  "mkdir_parents (files s) (os_path (cwd w) p) = (r, t') \<Longrightarrow>
   do_mkdir w p s = (r, s\<lparr>files := t', trace := trace s @ [Mkdir (os_path (cwd w) p)]\<rparr>)"
  by (simp add: do_mkdir_def)

lemma do_copy_result:
  "shutil_copy (cwd w) (files s) src dst = (r, t') \<Longrightarrow>
   do_copy w src dst s =
     (r, s\<lparr>files := t',
           trace := trace s @ [Copy (os_path (cwd w) src) (os_path (cwd w) dst)]\<rparr>)"
  by (simp add: do_copy_def)

lemma proto_commands:
  "protoc_command w bl = [''python'', ''-m'', ''grpc_tools.protoc'',
        ''-I'' @ str_of_path (Path True (os_path (cwd w) bl)),
        ''--python_out='' @ str_of_path (Path True (os_path (cwd w) bl)),
        ''--grpc_python_out='' @ str_of_path (Path True (os_path (cwd w) bl)),
        str_of_path (Path True (os_path (cwd w) bl @ [''mujoco_mpc'', ''proto'', ''agent.proto'']))]"
  "touch_command w bl = [''touch'',
        str_of_path (Path True (os_path (cwd w) bl @ [''mujoco_mpc'', ''proto'', ''__init__.py'']))]"
proof -
  show "protoc_command w bl = [''python'', ''-m'', ''grpc_tools.protoc'',
        ''-I'' @ str_of_path (Path True (os_path (cwd w) bl)),
        ''--python_out='' @ str_of_path (Path True (os_path (cwd w) bl)),
        ''--grpc_python_out='' @ str_of_path (Path True (os_path (cwd w) bl)),
        str_of_path (Path True (os_path (cwd w) bl @ [''mujoco_mpc'', ''proto'', ''agent.proto'']))]"
    by (simp add: protoc_command_def protoc_command_parts_def proto_paths resolve_def)
  show "touch_command w bl = [''touch'',
        str_of_path (Path True (os_path (cwd w) bl @ [''mujoco_mpc'', ''proto'', ''__init__.py'']))]"
    by (simp add: touch_command_def proto_paths(2))
qed

lemma touch_file_marker:
  assumes "touch_file k t = (0, t')" and "k \<noteq> []"
  shows "lookup t' k = (case lookup t k of None \<Rightarrow> Some (File []) | Some n \<Rightarrow> Some n)"
proof (cases "lookup t k")
  case (Some n)
  with assms show ?thesis by (simp add: touch_file_def)
next
  case None
  with assms have "t' = t @ [(k, File [])]"
    by (auto simp: touch_file_def split: option.splits node.splits)
  with None assms(2) show ?thesis by (simp add: lookup_def map_add_def)
qed

lemma copy_into_made_directory:
  assumes src: "lookup t (os_path cw src) = Some (File c)"
    and nd: "lookup t (os_path cw dst) \<noteq> Some Dir"
    and ne: "os_path cw src \<noteq> os_path cw dst"
    and q: "butlast (os_path cw dst) = q" "os_path cw dst \<noteq> []"
    and mk: "mkdir_parents t q = (None, t1)"
  shows "shutil_copy cw t1 src dst = (None, AList.update (os_path cw dst) (File c) t1) \<and>
         lookup (AList.update (os_path cw dst) (File c) t1) (os_path cw dst) = Some (File c) \<and>
         lookup (AList.update (os_path cw dst) (File c) t1) (os_path cw src) = Some (File c)"
proof -
  note g = mkdir_parents_grown [OF mk]
  from grown_keeps [OF g src] have s1: "lookup t1 (os_path cw src) = Some (File c)" .
  have np: "\<not> prefix (os_path cw dst) q"
  proof
    assume "prefix (os_path cw dst) q"
    then have "length (os_path cw dst) \<le> length q" by (rule prefix_length_le)
    with q show False by (cases "os_path cw dst" rule: rev_cases) auto
  qed
  have nd1: "lookup t1 (os_path cw dst) \<noteq> Some Dir"
  proof (cases "lookup t (os_path cw dst)")
    case None
    show ?thesis
    proof
      assume "lookup t1 (os_path cw dst) = Some Dir"
      from grown_new [OF g None this] np show False by simp
    qed
  next
    case (Some n)
    from grown_keeps [OF g Some] Some nd show ?thesis by simp
  qed
  then have tg: "copy_target cw t1 src dst = os_path cw dst" by (simp add: copy_target_def)
  from mkdir_parents_success [OF mk] q(1)
  have pd: "lookup t1 (butlast (os_path cw dst)) = Some Dir" by simp
  from shutil_copy_okI [of t1 cw src c dst, unfolded tg] s1 ne nd1 pd
  have 1: "shutil_copy cw t1 src dst = (None, AList.update (os_path cw dst) (File c) t1)"
    by simp
  from q(2) have 2: "lookup (AList.update (os_path cw dst) (File c) t1) (os_path cw dst) =
      Some (File c)"
    by (simp add: lookup_update)
  from q(2) s1 ne have 3: "lookup (AList.update (os_path cw dst) (File c) t1) (os_path cw src) =
      Some (File c)"
    by (simp add: lookup_update)
  from 1 2 3 show ?thesis by simp
qed

text \<open>
  Claim C4, as stated: the step always copies the interface file to
  \<^verbatim>\<open>mujoco_mpc/proto/agent.proto\<close> under the staging root and starts the compiler with the
  relocated copy as its input. Where a directory already stands at that path,
  \<^verbatim>\<open>shutil.copy\<close> puts the file inside it: the run makes its four calls and ends without
  an error, the destination is still a directory with the copy one level below, and the
  input given to the compiler is the path of the directory.
\<close>

theorem compiler_is_given_a_directory:
  "fst (GenerateProtoGrpcCommand_run example_world (Some (Path False [''build'', ''lib'']))
          occupied_state) = None \<and>
   lookup (files occupied_state) [''r'', ''grpc'', ''agent.proto''] = Some (File ''syntax = 3;'') \<and>
   new_events occupied_state
     (snd (GenerateProtoGrpcCommand_run example_world (Some (Path False [''build'', ''lib'']))
             occupied_state)) =
     [Mkdir [''r'', ''python'', ''build'', ''lib'', ''mujoco_mpc'', ''proto''],
      Copy [''r'', ''grpc'', ''agent.proto'']
        [''r'', ''python'', ''build'', ''lib'', ''mujoco_mpc'', ''proto'', ''agent.proto''],
      Spawn [''python'', ''-m'', ''grpc_tools.protoc'', ''-I/r/python/build/lib'',
             ''--python_out=/r/python/build/lib'', ''--grpc_python_out=/r/python/build/lib'',
             ''/r/python/build/lib/mujoco_mpc/proto/agent.proto''],
      Spawn [''touch'', ''/r/python/build/lib/mujoco_mpc/proto/__init__.py'']] \<and>
   lookup (files (snd (GenerateProtoGrpcCommand_run example_world
                         (Some (Path False [''build'', ''lib''])) occupied_state)))
     [''r'', ''python'', ''build'', ''lib'', ''mujoco_mpc'', ''proto'', ''agent.proto''] = Some Dir \<and>
   lookup (files (snd (GenerateProtoGrpcCommand_run example_world
                         (Some (Path False [''build'', ''lib''])) occupied_state)))
     [''r'', ''python'', ''build'', ''lib'', ''mujoco_mpc'', ''proto'', ''agent.proto'',
      ''agent.proto''] = Some (File ''syntax = 3;'')"
  by code_simp

text \<open>
  Claim C4, amended: the binding generation is copy-then-generate. Its calls are, in this
  order and never another: make the directory \<^verbatim>\<open>mujoco_mpc/proto\<close> under the staging root,
  copy the interface file to \<^verbatim>\<open>agent.proto\<close> there, start the compiler with the include
  path and both output directories set to the staging root and with the path of the copy as
  its input, start \<^verbatim>\<open>touch\<close> on \<^verbatim>\<open>__init__.py\<close> in the same directory; a run without an
  error has made all four, and the location of the copy is never that of the original.
  Where the original is a file, no directory stands at the destination and the directories
  can be made, the tree on which the compiler is started holds the content of the original
  at the destination and still at its own place, and the result of the step is the
  compiler's error when it exits with a status other than zero, otherwise the outcome of
  \<^verbatim>\<open>touch\<close>, with the tree as the last program started left it. The marker file is the
  work of the program \<^verbatim>\<open>touch\<close>: where it acts as \<open>touch_file\<close>, a run without an error
  leaves a marker file, empty when there was none and with its content when there was one.
\<close>

theorem bindings_copy_then_generate:
  "prefix (new_events s (snd (GenerateProtoGrpcCommand_run w (Some bl) s)))
     [Mkdir (os_path (cwd w) bl @ [''mujoco_mpc'', ''proto'']),
      Copy (os_path (cwd w) (Path False [''..'', ''grpc'', ''agent.proto'']))
        (os_path (cwd w) bl @ [''mujoco_mpc'', ''proto'', ''agent.proto'']),
      Spawn [''python'', ''-m'', ''grpc_tools.protoc'',
        ''-I'' @ str_of_path (Path True (os_path (cwd w) bl)),
        ''--python_out='' @ str_of_path (Path True (os_path (cwd w) bl)),
        ''--grpc_python_out='' @ str_of_path (Path True (os_path (cwd w) bl)),
        str_of_path (Path True (os_path (cwd w) bl @ [''mujoco_mpc'', ''proto'', ''agent.proto'']))],
      Spawn [''touch'',
        str_of_path (Path True (os_path (cwd w) bl @ [''mujoco_mpc'', ''proto'', ''__init__.py'']))]] \<and>
   (fst (GenerateProtoGrpcCommand_run w (Some bl) s) = None \<longrightarrow>
      length (new_events s (snd (GenerateProtoGrpcCommand_run w (Some bl) s))) = 4) \<and>
   os_path (cwd w) (Path False [''..'', ''grpc'', ''agent.proto'']) \<noteq>
     os_path (cwd w) bl @ [''mujoco_mpc'', ''proto'', ''agent.proto''] \<and>
   (lookup (files s) (os_path (cwd w) (Path False [''..'', ''grpc'', ''agent.proto''])) =
      Some (File c) \<and>
    lookup (files s) (os_path (cwd w) bl @ [''mujoco_mpc'', ''proto'', ''agent.proto'']) \<noteq> Some Dir \<and>
    mkdir_parents (files s) (os_path (cwd w) bl @ [''mujoco_mpc'', ''proto'']) = (None, t1) \<and>
    exec w (protoc_command w bl) (cwd w)
      (AList.update (os_path (cwd w) bl @ [''mujoco_mpc'', ''proto'', ''agent.proto'']) (File c) t1) =
      (rc1, t3) \<and>
    exec w (touch_command w bl) (cwd w) t3 = (rc2, t4) \<longrightarrow>
      lookup (AList.update (os_path (cwd w) bl @ [''mujoco_mpc'', ''proto'', ''agent.proto''])
                (File c) t1)
        (os_path (cwd w) bl @ [''mujoco_mpc'', ''proto'', ''agent.proto'']) = Some (File c) \<and>
      lookup (AList.update (os_path (cwd w) bl @ [''mujoco_mpc'', ''proto'', ''agent.proto''])
                (File c) t1)
        (os_path (cwd w) (Path False [''..'', ''grpc'', ''agent.proto''])) = Some (File c) \<and>
      GenerateProtoGrpcCommand_run w (Some bl) s =
        (if rc1 \<noteq> 0
         then (Some (DistutilsExecError (protoc_command w bl) rc1),
               s\<lparr>files := t3,
                 trace := trace s @
                   [Mkdir (os_path (cwd w) bl @ [''mujoco_mpc'', ''proto'']),
                    Copy (os_path (cwd w) (Path False [''..'', ''grpc'', ''agent.proto'']))
                      (os_path (cwd w) bl @ [''mujoco_mpc'', ''proto'', ''agent.proto'']),
                    Spawn (protoc_command w bl)]\<rparr>)
         else ((if rc2 \<noteq> 0 then Some (DistutilsExecError (touch_command w bl) rc2) else None),
               s\<lparr>files := t4,
                 trace := trace s @
                   [Mkdir (os_path (cwd w) bl @ [''mujoco_mpc'', ''proto'']),
                    Copy (os_path (cwd w) (Path False [''..'', ''grpc'', ''agent.proto'']))
                      (os_path (cwd w) bl @ [''mujoco_mpc'', ''proto'', ''agent.proto'']),
                    Spawn (protoc_command w bl),
                    Spawn (touch_command w bl)]\<rparr>)) \<and>
      (rc1 = 0 \<and>
       (rc2, t4) =
         touch_file (os_path (cwd w) bl @ [''mujoco_mpc'', ''proto'', ''__init__.py'']) t3 \<and>
       rc2 = 0 \<longrightarrow>
         lookup (files (snd (GenerateProtoGrpcCommand_run w (Some bl) s)))
           (os_path (cwd w) bl @ [''mujoco_mpc'', ''proto'', ''__init__.py'']) =
           (case lookup t3 (os_path (cwd w) bl @ [''mujoco_mpc'', ''proto'', ''__init__.py'']) of
              None \<Rightarrow> Some (File [])
            | Some n \<Rightarrow> Some n)))"
proof (intro conjI impI)
  let ?mk = "do_mkdir w (parent (agent_proto_destination_path w bl))"
  let ?cp = "do_copy w (agent_proto_source_path w) (agent_proto_destination_path w bl)"
  let ?DIR = "os_path (cwd w) bl @ [''mujoco_mpc'', ''proto'']"
  let ?DEST = "os_path (cwd w) bl @ [''mujoco_mpc'', ''proto'', ''agent.proto'']"
  let ?SRC = "os_path (cwd w) (Path False [''..'', ''grpc'', ''agent.proto''])"
  let ?MARK = "os_path (cwd w) bl @ [''mujoco_mpc'', ''proto'', ''__init__.py'']"
  let ?L = "[Mkdir ?DIR, Copy ?SRC ?DEST,
      Spawn [''python'', ''-m'', ''grpc_tools.protoc'',
        ''-I'' @ str_of_path (Path True (os_path (cwd w) bl)),
        ''--python_out='' @ str_of_path (Path True (os_path (cwd w) bl)),
        ''--grpc_python_out='' @ str_of_path (Path True (os_path (cwd w) bl)),
        str_of_path (Path True ?DEST)],
      Spawn [''touch'', str_of_path (Path True ?MARK)]]"
  have g: "GenerateProtoGrpcCommand_run w (Some bl) s =
      seq [?mk, ?cp, spawn w (protoc_command w bl), spawn w (touch_command w bl)] s"
    by (simp add: GenerateProtoGrpcCommand_run_def)
  have 1: "trace (snd (?mk s)) = trace s @ [Mkdir ?DIR]"
    for s by (simp add: do_mkdir_trace proto_parent_loc)
  have 2: "trace (snd (?cp s)) = trace s @ [Copy ?SRC ?DEST]"
    for s by (simp add: do_copy_trace proto_dest_loc proto_source_raw)
  note t = seq4_trace [of ?mk _ ?cp _ "spawn w (protoc_command w bl)" _
      "spawn w (touch_command w bl)" _ s, OF 1 2 spawn_trace spawn_trace, folded g,
      unfolded proto_commands]
  from t show "prefix (new_events s (snd (GenerateProtoGrpcCommand_run w (Some bl) s))) ?L"
    by blast
  show "length (new_events s (snd (GenerateProtoGrpcCommand_run w (Some bl) s))) = 4"
    if "fst (GenerateProtoGrpcCommand_run w (Some bl) s) = None"
    using t that by simp
  show ne: "?SRC \<noteq> ?DEST"
    by (simp add: proto_raw_loc)
  assume h: "lookup (files s) ?SRC = Some (File c) \<and>
    lookup (files s) ?DEST \<noteq> Some Dir \<and>
    mkdir_parents (files s) ?DIR = (None, t1) \<and>
    exec w (protoc_command w bl) (cwd w) (AList.update ?DEST (File c) t1) = (rc1, t3) \<and>
    exec w (touch_command w bl) (cwd w) t3 = (rc2, t4)"
  then have src: "lookup (files s) ?SRC = Some (File c)"
    and nd: "lookup (files s) ?DEST \<noteq> Some Dir"
    and mk: "mkdir_parents (files s) ?DIR = (None, t1)"
    and pc: "exec w (protoc_command w bl) (cwd w) (AList.update ?DEST (File c) t1) = (rc1, t3)"
    and tc: "exec w (touch_command w bl) (cwd w) t3 = (rc2, t4)"
    by simp_all
  have bd: "butlast ?DEST = ?DIR" "?DEST \<noteq> []"
    by (simp_all add: butlast_append)
  note cp = copy_into_made_directory [of "files s" "cwd w" "agent_proto_source_path w" c
      "agent_proto_destination_path w bl" ?DIR t1, unfolded proto_dest_loc proto_source_raw,
      OF src nd ne bd mk]
  from cp show "lookup (AList.update ?DEST (File c) t1) ?DEST = Some (File c)" by blast
  from cp show "lookup (AList.update ?DEST (File c) t1) ?SRC = Some (File c)" by blast
  define s1 where "s1 = s\<lparr>files := t1, trace := trace s @ [Mkdir ?DIR]\<rparr>"
  define s2 where "s2 = s\<lparr>files := AList.update ?DEST (File c) t1,
      trace := trace s @ [Mkdir ?DIR, Copy ?SRC ?DEST]\<rparr>"
  from do_mkdir_result [of s w "parent (agent_proto_destination_path w bl)" None t1] mk
  have m1: "?mk s = (None, s1)"
    by (simp add: proto_parent_loc s1_def)
  from cp have "shutil_copy (cwd w) (files s1) (agent_proto_source_path w)
      (agent_proto_destination_path w bl) = (None, AList.update ?DEST (File c) t1)"
    by (simp add: s1_def)
  from do_copy_result [OF this]
  have c1: "?cp s1 = (None, s2)"
    by (simp add: s1_def s2_def proto_dest_loc proto_source_raw)
  from pc have p1: "spawn w (protoc_command w bl) s2 =
      ((if rc1 \<noteq> 0 then Some (DistutilsExecError (protoc_command w bl) rc1) else None),
       s2\<lparr>files := t3, trace := trace s2 @ [Spawn (protoc_command w bl)]\<rparr>)"
    by (intro spawn_result) (simp add: s2_def)
  from tc have t1: "spawn w (touch_command w bl)
        (s2\<lparr>files := t3, trace := trace s2 @ [Spawn (protoc_command w bl)]\<rparr>) =
      ((if rc2 \<noteq> 0 then Some (DistutilsExecError (touch_command w bl) rc2) else None),
       s2\<lparr>files := t4,
          trace := trace s2 @ [Spawn (protoc_command w bl), Spawn (touch_command w bl)]\<rparr>)"
    using spawn_result [of w "touch_command w bl"
        "s2\<lparr>files := t3, trace := trace s2 @ [Spawn (protoc_command w bl)]\<rparr>" rc2 t4]
    by simp
  show run: "GenerateProtoGrpcCommand_run w (Some bl) s =
        (if rc1 \<noteq> 0
         then (Some (DistutilsExecError (protoc_command w bl) rc1),
               s\<lparr>files := t3,
                 trace := trace s @ [Mkdir ?DIR, Copy ?SRC ?DEST, Spawn (protoc_command w bl)]\<rparr>)
         else ((if rc2 \<noteq> 0 then Some (DistutilsExecError (touch_command w bl) rc2) else None),
               s\<lparr>files := t4,
                 trace := trace s @ [Mkdir ?DIR, Copy ?SRC ?DEST, Spawn (protoc_command w bl),
                    Spawn (touch_command w bl)]\<rparr>))"
    unfolding g using m1 c1 p1 t1 by (simp add: s2_def)
  assume k: "rc1 = 0 \<and> (rc2, t4) = touch_file ?MARK t3 \<and> rc2 = 0"
  then have e: "(rc2, t4) = touch_file ?MARK t3" and z: "rc2 = 0" by blast+
  from e [symmetric] z have "touch_file ?MARK t3 = (0, t4)" by simp
  from touch_file_marker [OF this] have "lookup t4 ?MARK =
      (case lookup t3 ?MARK of None \<Rightarrow> Some (File []) | Some n \<Rightarrow> Some n)"
    by simp
  with run k show "lookup (files (snd (GenerateProtoGrpcCommand_run w (Some bl) s))) ?MARK =
      (case lookup t3 ?MARK of None \<Rightarrow> Some (File []) | Some n \<Rightarrow> Some n)"
    by simp
qed

theorem bindings_copy_then_generate_witness:
  "lookup (files checkout_state) [''r'', ''grpc'', ''agent.proto''] = Some (File ''syntax = 3;'') \<and>
   lookup (files checkout_state)
     [''r'', ''python'', ''build'', ''lib'', ''mujoco_mpc'', ''proto'', ''agent.proto''] = None \<and>
   fst (GenerateProtoGrpcCommand_run toolchain_world (Some (Path False [''build'', ''lib'']))
          checkout_state) = None \<and>
   length (new_events checkout_state
             (snd (GenerateProtoGrpcCommand_run toolchain_world
                     (Some (Path False [''build'', ''lib''])) checkout_state))) = 4 \<and>
   lookup (files (snd (GenerateProtoGrpcCommand_run toolchain_world
                         (Some (Path False [''build'', ''lib''])) checkout_state)))
     [''r'', ''python'', ''build'', ''lib'', ''mujoco_mpc'', ''proto'', ''agent.proto''] =
     Some (File ''syntax = 3;'') \<and>
   lookup (files (snd (GenerateProtoGrpcCommand_run toolchain_world
                         (Some (Path False [''build'', ''lib''])) checkout_state)))
     [''r'', ''python'', ''build'', ''lib'', ''mujoco_mpc'', ''proto'', ''agent_pb2.py''] =
     Some (File ''# messages of syntax = 3;'') \<and>
   lookup (files (snd (GenerateProtoGrpcCommand_run toolchain_world
                         (Some (Path False [''build'', ''lib''])) checkout_state)))
     [''r'', ''python'', ''build'', ''lib'', ''mujoco_mpc'', ''proto'', ''__init__.py''] =
     Some (File [])"
proof -
  let ?bl = "Path False [''build'', ''lib'']"
  let ?w = toolchain_world
  let ?DIR = "os_path (cwd ?w) ?bl @ [''mujoco_mpc'', ''proto'']"
  let ?DEST = "os_path (cwd ?w) ?bl @ [''mujoco_mpc'', ''proto'', ''agent.proto'']"
  let ?SRC = "os_path (cwd ?w) (Path False [''..'', ''grpc'', ''agent.proto''])"
  let ?MARK = "os_path (cwd ?w) ?bl @ [''mujoco_mpc'', ''proto'', ''__init__.py'']"
  let ?run = "GenerateProtoGrpcCommand_run ?w (Some ?bl) checkout_state"
  have dest: "?DEST = [''r'', ''python'', ''build'', ''lib'', ''mujoco_mpc'', ''proto'', ''agent.proto'']"
    by code_simp
  have srcl: "?SRC = [''r'', ''grpc'', ''agent.proto'']"
    by code_simp
  have mark: "?MARK = [''r'', ''python'', ''build'', ''lib'', ''mujoco_mpc'', ''proto'', ''__init__.py'']"
    by code_simp
  have src: "lookup (files checkout_state) ?SRC = Some (File ''syntax = 3;'')"
    by code_simp
  have none: "lookup (files checkout_state) ?DEST = None"
    by code_simp
  then have nd: "lookup (files checkout_state) ?DEST \<noteq> Some Dir" by simp
  define t1 where "t1 = snd (mkdir_parents (files checkout_state) ?DIR)"
  have "fst (mkdir_parents (files checkout_state) ?DIR) = None" by code_simp
  then have mk: "mkdir_parents (files checkout_state) ?DIR = (None, t1)"
    by (simp add: t1_def prod_eq_iff)
  define t3 where "t3 = snd (exec ?w (protoc_command ?w ?bl) (cwd ?w)
      (AList.update ?DEST (File ''syntax = 3;'') t1))"
  have "fst (exec ?w (protoc_command ?w ?bl) (cwd ?w)
      (AList.update ?DEST (File ''syntax = 3;'') t1)) = 0"
    unfolding t1_def by code_simp
  then have pc: "exec ?w (protoc_command ?w ?bl) (cwd ?w)
      (AList.update ?DEST (File ''syntax = 3;'') t1) = (0, t3)"
    by (simp add: t3_def prod_eq_iff)
  define t4 where "t4 = snd (exec ?w (touch_command ?w ?bl) (cwd ?w) t3)"
  have "fst (exec ?w (touch_command ?w ?bl) (cwd ?w) t3) = 0"
    unfolding t3_def t1_def by code_simp
  then have tc: "exec ?w (touch_command ?w ?bl) (cwd ?w) t3 = (0, t4)"
    by (simp add: t4_def prod_eq_iff)
  have tf: "(0, t4) = touch_file ?MARK t3"
    unfolding t4_def t3_def t1_def by code_simp
  have m3: "lookup t3 ?MARK = None"
    unfolding t3_def t1_def by code_simp
  have pb: "lookup t4 [''r'', ''python'', ''build'', ''lib'', ''mujoco_mpc'', ''proto'', ''agent_pb2.py''] =
      Some (File ''# messages of syntax = 3;'')"
    unfolding t4_def t3_def t1_def by code_simp
  have cp: "lookup t4 [''r'', ''python'', ''build'', ''lib'', ''mujoco_mpc'', ''proto'', ''agent.proto''] =
      Some (File ''syntax = 3;'')"
    unfolding t4_def t3_def t1_def by code_simp
  note t = bindings_copy_then_generate [of checkout_state ?w ?bl "''syntax = 3;''" t1 0 t3 0 t4]
  from t src nd mk pc tc have r: "?run =
      (None, checkout_state\<lparr>files := t4,
         trace := trace checkout_state @
           [Mkdir ?DIR, Copy ?SRC ?DEST, Spawn (protoc_command ?w ?bl),
            Spawn (touch_command ?w ?bl)]\<rparr>)"
    by simp
  then have ok: "fst ?run = None" by simp
  with t have 1: "length (new_events checkout_state (snd ?run)) = 4" by blast
  from t src nd mk pc tc tf have "lookup (files (snd ?run)) ?MARK =
      (case lookup t3 ?MARK of None \<Rightarrow> Some (File []) | Some n \<Rightarrow> Some n)"
    by blast
  with m3 have 2: "lookup (files (snd ?run)) ?MARK = Some (File [])"
    by simp
  from r pb cp have 3: "lookup (files (snd ?run))
      [''r'', ''python'', ''build'', ''lib'', ''mujoco_mpc'', ''proto'', ''agent_pb2.py''] =
      Some (File ''# messages of syntax = 3;'')"
    and 4: "lookup (files (snd ?run))
      [''r'', ''python'', ''build'', ''lib'', ''mujoco_mpc'', ''proto'', ''agent.proto''] =
      Some (File ''syntax = 3;'')"
    by simp_all
  from src none ok 1 2 3 4 show ?thesis
    unfolding dest srcl mark by simp
qed

subsection \<open>Running the steps again\<close>























end
